theory Spec2Isabelle
  imports Main "HOL-Library.Word"
begin

section \<open>The coordination layer of the deployment manager (pkg/manager/manager.go)\<close>

text \<open>
  The development embeds \<^verbatim>\<open>PlatformManager\<close> and its methods.  The Go methods
  mutate the receiver; here every method takes the state and returns the new one.  The
  methods of the two registries run under \<^verbatim>\<open>m.lock\<close> from their first statement to
  their return, so each is one atomic step; the model is sequential and says nothing about
  notifications that interleave.  Calls to \<^verbatim>\<open>log.Info\<close> have no effect on any
  modelled state and are left out.
\<close>

subsection \<open>Errors and results\<close>

text \<open>
  A Go \<^verbatim>\<open>error\<close> result is an \<open>error option\<close>: \<open>None\<close> is \<^verbatim>\<open>nil\<close>.
  \<open>WaitForMonitor msg\<close> is \<^verbatim>\<open>WaitForMonitor{BaseError{msg}}\<close>, \<open>ClientError msg\<close>
  is \<^verbatim>\<open>ClientError{BaseError{msg}}\<close>, \<open>ApiError\<close> is an error produced by the
  Kubernetes client, and \<open>Wrap e msg\<close> is \<^verbatim>\<open>perrors.Wrap(e, msg)\<close>.
\<close>

datatype error =
    WaitForMonitor string
  | ClientError string
  | ApiError string
  | Wrap error string

definition NewWaitForMonitor :: "string \<Rightarrow> error option" where
  "NewWaitForMonitor msg = Some (WaitForMonitor msg)"

text \<open>Run-time panics of the Go code are results of their own.\<close>

datatype panic = AssignmentToEntryInNilMap

text \<open>
  A call either returns (a value and the state it leaves) or panics (leaving the state
  reached when the panic was raised).
\<close>

datatype ('a, 's) outcome = Return 'a 's | Panic panic 's

subsection \<open>The notification counter: \<^verbatim>\<open>getNextCount\<close>\<close>

text \<open>
  \<^verbatim>\<open>strconv.Atoi\<close> and \<^verbatim>\<open>strconv.Itoa\<close> belong to the Go standard library.
  They are modelled from their documented behaviour for base 10 on a 64-bit platform:
  an optional sign \<^verbatim>\<open>+\<close> or \<^verbatim>\<open>-\<close>, then one or more ASCII digits; a value
  outside the range of \<^verbatim>\<open>int\<close> is a range error.  Go's \<^verbatim>\<open>int\<close> is
  \<open>64 word\<close>, read as a signed number by \<open>sint\<close>; its addition wraps around.
\<close>

definition isDigit :: "char \<Rightarrow> bool" where
  "isDigit ch = (48 \<le> (of_char ch :: int) \<and> (of_char ch :: int) \<le> 57)"

definition digitVal :: "char \<Rightarrow> int" where
  "digitVal ch = of_char ch - 48"

fun parseDigits :: "int \<Rightarrow> string \<Rightarrow> int option" where
  "parseDigits n [] = Some n"
| "parseDigits n (ch # s) =
     (if isDigit ch then parseDigits (n * 10 + digitVal ch) s else None)"

text \<open>
  \<open>signedValue s\<close> is the integer that the text \<open>s\<close> denotes, \<open>None\<close> when \<open>s\<close>
  is not an optionally signed, non-empty sequence of decimal digits (a syntax error of
  \<^verbatim>\<open>Atoi\<close>).
\<close>

definition signedValue :: "string \<Rightarrow> int option" where
  "signedValue s0 =
     (let neg = (s0 \<noteq> [] \<and> hd s0 = CHR ''-'');
          s = (if s0 \<noteq> [] \<and> (hd s0 = CHR ''-'' \<or> hd s0 = CHR ''+'') then tl s0 else s0)
      in if s = [] then None
         else (case parseDigits 0 s of
                 None \<Rightarrow> None
               | Some un \<Rightarrow> Some (if neg then - un else un)))"

definition MinInt :: int where
  "MinInt = - (2 ^ 63)"

definition MaxInt :: int where
  "MaxInt = 2 ^ 63 - 1"

definition Atoi :: "string \<Rightarrow> 64 word option" where
  "Atoi s =
     (case signedValue s of
        None \<Rightarrow> None
      | Some n \<Rightarrow> if n < MinInt \<or> MaxInt < n then None else Some (word_of_int n))"

function formatBits :: "int \<Rightarrow> string" where
  "formatBits u =
     (if u < 10 then [char_of (48 + u)]
      else formatBits (u div 10) @ [char_of (48 + u mod 10)])"
  by pat_completeness auto
termination
  by (relation "measure nat") auto

declare formatBits.simps [simp del]

text \<open>The decimal text of an integer, as \<^verbatim>\<open>strconv.FormatInt(n, 10)\<close> writes it.\<close>

definition formatInt :: "int \<Rightarrow> string" where
  "formatInt n = (if n < 0 then CHR ''-'' # formatBits (- n) else formatBits n)"

definition Itoa :: "64 word \<Rightarrow> string" where
  "Itoa i = formatInt (sint i)"

text \<open>
  \<^verbatim>\<open>
  func getNextCount(value string) string {
      count := 0
      if value != "" {
          count, err = strconv.Atoi(value)
          if err != nil { count = 0 }
      }
      return strconv.Itoa(count + 1)
  }
  \<close>
\<close>

definition getNextCount :: "string \<Rightarrow> string" where
  "getNextCount v =
     (let count = (if v \<noteq> [] then (case Atoi v of None \<Rightarrow> 0 | Some c \<Rightarrow> c) else 0)
      in Itoa (count + 1))"

subsection \<open>Kubernetes objects\<close>

text \<open>
  Modelled from the spec: the constants \<^verbatim>\<open>v1.Group\<close>, \<^verbatim>\<open>v1.Version\<close> and
  \<^verbatim>\<open>v1.KindHost\<close>, \<^verbatim>\<open>v1.KindHostProfile\<close>, ... of package \<^verbatim>\<open>v1\<close>, whose
  declarations are missing from the sources at hand.  The kinds are the resource kinds
  host, host-profile, platform-network, data-network, ptp-instance, ptp-interface and
  system, written as the custom resource definitions write them
  (\<^verbatim>\<open>group: starlingx.windriver.com\<close>, \<^verbatim>\<open>version: v1\<close>, \<^verbatim>\<open>kind: PtpInstance\<close>,
  \<^verbatim>\<open>kind: PtpInterface\<close>).  The properties below use of them only that they differ
  from one another.
\<close>

definition v1_Group :: string where
  "v1_Group = ''starlingx.windriver.com''"

definition v1_Version :: string where
  "v1_Version = ''v1''"

definition KindHost :: string where
  "KindHost = ''Host''"

definition KindHostProfile :: string where
  "KindHostProfile = ''HostProfile''"

definition KindPlatformNetwork :: string where
  "KindPlatformNetwork = ''PlatformNetwork''"

definition KindDataNetwork :: string where
  "KindDataNetwork = ''DataNetwork''"

definition KindPTPInstance :: string where
  "KindPTPInstance = ''PtpInstance''"

definition KindPTPInterface :: string where
  "KindPTPInterface = ''PtpInterface''"

definition KindSystem :: string where
  "KindSystem = ''System''"

definition NotificationCountKey :: string where
  "NotificationCountKey = ''deployment-manager/notifications''"

record GroupVersionKind =
  Group :: string
  Version :: string
  Kind :: string

text \<open>
  A stored object: its type, its namespace and name, and its annotations.  The annotations
  are a Go \<^verbatim>\<open>map[string]string\<close>; \<open>None\<close> is the \<^verbatim>\<open>nil\<close> map, which reads as
  empty and panics on assignment.
\<close>

record Resource =
  TypeMeta :: GroupVersionKind
  Namespace :: string
  Name :: string
  Annotations :: "(string \<rightharpoonup> string) option"

text \<open>
  A \<^verbatim>\<open>runtime.Object\<close> is any value of the object interface; only values that carry
  object metadata have a key.
\<close>

datatype runtime_Object = WithMeta Resource | WithoutMeta

definition GetKind :: "Resource \<Rightarrow> string" where
  "GetKind obj = Kind (TypeMeta obj)"

text \<open>Reading a Go map: a missing key (and the nil map) gives the empty string.\<close>

definition map_index :: "(string \<rightharpoonup> string) \<Rightarrow> string \<Rightarrow> string" where
  "map_index a k = (case a k of None \<Rightarrow> [] | Some v \<Rightarrow> v)"

definition nilable_index :: "(string \<rightharpoonup> string) option \<Rightarrow> string \<Rightarrow> string" where
  "nilable_index a k = (case a of None \<Rightarrow> [] | Some a' \<Rightarrow> map_index a' k)"

text \<open>The identity of an object in the store: type, namespace and name.\<close>

definition identity :: "Resource \<Rightarrow> GroupVersionKind \<times> string \<times> string" where
  "identity obj = (TypeMeta obj, Namespace obj, Name obj)"

subsection \<open>The Kubernetes client\<close>

text \<open>
  Modelled from the spec: the client \<^verbatim>\<open>m.GetClient()\<close> of the cluster object store,
  which belongs to an external library (the controller runtime).  The store provides
  \<^verbatim>\<open>Get(key)\<close>, \<^verbatim>\<open>List(namespace, kind)\<close> and \<^verbatim>\<open>Update(object)\<close>, and any of
  them may fail.  The store is the list of its objects; \<open>list_error\<close>, \<open>get_error\<close> and
  \<open>update_error\<close> say which calls the store rejects (a rejected call changes no object);
  \<open>requests\<close> records every call made, in order.  \<^verbatim>\<open>Update\<close> replaces the stored
  object of the same type, namespace and name, and fails when there is none.  As in the
  Kubernetes API, the empty namespace selects the objects of all namespaces.
\<close>

datatype request =
    ListRequest GroupVersionKind string
  | GetRequest GroupVersionKind string string
  | UpdateRequest Resource

record Client =
  objects :: "Resource list"
  list_error :: "GroupVersionKind \<Rightarrow> string \<Rightarrow> error option"
  get_error :: "GroupVersionKind \<Rightarrow> string \<Rightarrow> string \<Rightarrow> error option"
  update_error :: "Resource \<Rightarrow> error option"
  requests :: "request list"

definition InNamespace :: "string \<Rightarrow> Resource \<Rightarrow> bool" where
  "InNamespace ns obj = (ns = [] \<or> Namespace obj = ns)"

definition selected :: "GroupVersionKind \<Rightarrow> string \<Rightarrow> Resource \<Rightarrow> bool" where
  "selected gvk ns obj = (TypeMeta obj = gvk \<and> InNamespace ns obj)"

definition client_List ::
  "Client \<Rightarrow> GroupVersionKind \<Rightarrow> string \<Rightarrow> (error + Resource list) \<times> Client" where
  "client_List c gvk ns =
     (let c' = c\<lparr>requests := requests c @ [ListRequest gvk ns]\<rparr>
      in case list_error c gvk ns of
           Some err \<Rightarrow> (Inl err, c')
         | None \<Rightarrow> (Inr (filter (selected gvk ns) (objects c)), c'))"

definition client_Get ::
  "Client \<Rightarrow> GroupVersionKind \<Rightarrow> string \<Rightarrow> string \<Rightarrow> (error + Resource) \<times> Client" where
  "client_Get c gvk ns nm =
     (let c' = c\<lparr>requests := requests c @ [GetRequest gvk ns nm]\<rparr>
      in case get_error c gvk ns nm of
           Some err \<Rightarrow> (Inl err, c')
         | None \<Rightarrow>
             (case find (\<lambda>x. identity x = (gvk, ns, nm)) (objects c) of
                None \<Rightarrow> (Inl (ApiError ''not found''), c')
              | Some x \<Rightarrow> (Inr x, c')))"

definition replace :: "Resource \<Rightarrow> Resource \<Rightarrow> Resource" where
  "replace obj x = (if identity x = identity obj then obj else x)"

definition client_Update :: "Client \<Rightarrow> Resource \<Rightarrow> error option \<times> Client" where
  "client_Update c obj =
     (let c' = c\<lparr>requests := requests c @ [UpdateRequest obj]\<rparr>
      in case update_error c obj of
           Some err \<Rightarrow> (Some err, c')
         | None \<Rightarrow>
             if list_ex (\<lambda>x. identity x = identity obj) (objects c)
             then (None, c'\<lparr>objects := map (replace obj) (objects c)\<rparr>)
             else (Some (ApiError ''not found''), c'))"

subsection \<open>The registries\<close>

text \<open>
  \<^verbatim>\<open>*gophercloud.ServiceClient\<close> is an opaque handle; \<open>None\<close> is \<^verbatim>\<open>nil\<close>.  The map
  \<^verbatim>\<open>systems\<close> holds pointers, each made by a composite literal at the moment its key is
  first written and never stored under a second key, so the map of records is the map of
  the pointed-to structs.
\<close>

type_synonym ServiceClient = nat

type_synonym SystemType = string

record SystemNamespace =
  client :: "ServiceClient option"
  ready :: bool
  systemType :: SystemType

type_synonym monitor_ref = nat

record PlatformManager =
  Manager :: Client
  systems :: "string \<rightharpoonup> SystemNamespace"
  monitors :: "string \<rightharpoonup> monitor_ref"

definition GetClient :: "PlatformManager \<Rightarrow> Client" where
  "GetClient m = Manager m"

definition NewPlatformManager :: "Client \<Rightarrow> PlatformManager" where
  "NewPlatformManager manager =
     \<lparr>Manager = manager, systems = Map.empty, monitors = Map.empty\<rparr>"

text \<open>Carrying the outcome of a client loop back into the manager that owns the client.\<close>

definition with_client ::
  "PlatformManager \<Rightarrow> ('a, Client) outcome \<Rightarrow> ('a, PlatformManager) outcome" where
  "with_client m out =
     (case out of
        Return v c \<Rightarrow> Return v (m\<lparr>Manager := c\<rparr>)
      | Panic p c \<Rightarrow> Panic p (m\<lparr>Manager := c\<rparr>))"

subsection \<open>The notification cascade\<close>

text \<open>
  The loop of \<^verbatim>\<open>NotifySystemController\<close> over \<^verbatim>\<open>systems.Items\<close>:
  \<^verbatim>\<open>
      count := getNextCount(obj.Annotations[NotificationCountKey])
      obj.Annotations[NotificationCountKey] = count
      err := m.GetClient().Update(context.TODO(), &obj)
      if err != nil { return perrors.Wrap(err, "failed to notify system controller") }
  \<close>
  The assignment is made on the map held by the object as it was listed: there is no check
  for a nil map.
\<close>

fun notifySystemItems :: "Client \<Rightarrow> Resource list \<Rightarrow> (error option, Client) outcome" where
  "notifySystemItems c [] = Return None c"
| "notifySystemItems c (obj # items) =
     (let count = getNextCount (nilable_index (Annotations obj) NotificationCountKey)
      in case Annotations obj of
           None \<Rightarrow> Panic AssignmentToEntryInNilMap c
         | Some a \<Rightarrow>
             (case client_Update c (obj\<lparr>Annotations := Some (a(NotificationCountKey \<mapsto> count))\<rparr>) of
                (Some err, c') \<Rightarrow> Return (Some (Wrap err ''failed to notify system controller'')) c'
              | (None, c') \<Rightarrow> notifySystemItems c' items))"

definition SystemGVK :: GroupVersionKind where
  "SystemGVK = \<lparr>Group = v1_Group, Version = v1_Version, Kind = KindSystem\<rparr>"

definition NotifySystemController ::
  "PlatformManager \<Rightarrow> string \<Rightarrow> (error option, PlatformManager) outcome" where
  "NotifySystemController m namespace =
     (case client_List (GetClient m) SystemGVK namespace of
        (Inl err, c') \<Rightarrow> Return (Some (Wrap err ''failed to query system list'')) (m\<lparr>Manager := c'\<rparr>)
      | (Inr items, c') \<Rightarrow> with_client m (notifySystemItems c' items))"

definition systemDependencies :: "GroupVersionKind list" where
  "systemDependencies =
     [\<lparr>Group = v1_Group, Version = v1_Version, Kind = KindHost\<rparr>,
      \<lparr>Group = v1_Group, Version = v1_Version, Kind = KindPlatformNetwork\<rparr>,
      \<lparr>Group = v1_Group, Version = v1_Version, Kind = KindDataNetwork\<rparr>,
      \<lparr>Group = v1_Group, Version = v1_Version, Kind = KindPTPInstance\<rparr>,
      \<lparr>Group = v1_Group, Version = v1_Version, Kind = KindPTPInterface\<rparr>]"

text \<open>The kinds that the \<^verbatim>\<open>switch obj.GetKind()\<close> of \<^verbatim>\<open>notifyControllers\<close> lets through.\<close>

definition notifiable :: "string \<Rightarrow> bool" where
  "notifiable k =
     (k = KindHost \<or> k = KindHostProfile \<or> k = KindPlatformNetwork \<or> k = KindDataNetwork
      \<or> k = KindPTPInstance \<or> k = KindPTPInterface)"

text \<open>
  The counter bump shared by \<^verbatim>\<open>notifyControllers\<close> and \<^verbatim>\<open>notifyController\<close>:
  \<^verbatim>\<open>
      if annotations == nil { annotations = make(map[string]string) }
      count := getNextCount(annotations[NotificationCountKey])
      annotations[NotificationCountKey] = count
  \<close>
\<close>

definition bumpAnnotations :: "(string \<rightharpoonup> string) option \<Rightarrow> (string \<rightharpoonup> string)" where
  "bumpAnnotations annotations0 =
     (let annotations = (case annotations0 of None \<Rightarrow> Map.empty | Some a \<Rightarrow> a);
          count = getNextCount (map_index annotations NotificationCountKey)
      in annotations(NotificationCountKey \<mapsto> count))"

definition bump :: "Resource \<Rightarrow> Resource" where
  "bump obj = obj\<lparr>Annotations := Some (bumpAnnotations (Annotations obj))\<rparr>"

fun notifyItems :: "Client \<Rightarrow> Resource list \<Rightarrow> error option \<times> Client" where
  "notifyItems c [] = (None, c)"
| "notifyItems c (obj # items) =
     (if notifiable (GetKind obj)
      then (case client_Update c (bump obj) of
              (Some err, c') \<Rightarrow>
                (Some (Wrap err (''failed to notify '' @ GetKind obj @ '' controller'')), c')
            | (None, c') \<Rightarrow> notifyItems c' items)
      else notifyItems c items)"

fun notifyControllersClient ::
  "Client \<Rightarrow> string \<Rightarrow> GroupVersionKind list \<Rightarrow> error option \<times> Client" where
  "notifyControllersClient c namespace [] = (None, c)"
| "notifyControllersClient c namespace (gvk # gvkList) =
     (case client_List c gvk namespace of
        (Inl err, c') \<Rightarrow> (Some (Wrap err (''failed to query '' @ Kind gvk @ '' list'')), c')
      | (Inr items, c') \<Rightarrow>
          (case notifyItems c' items of
             (Some err, c'') \<Rightarrow> (Some err, c'')
           | (None, c'') \<Rightarrow> notifyControllersClient c'' namespace gvkList))"

definition notifyControllers ::
  "PlatformManager \<Rightarrow> string \<Rightarrow> GroupVersionKind list \<Rightarrow> error option \<times> PlatformManager" where
  "notifyControllers m namespace gvkList =
     (case notifyControllersClient (GetClient m) namespace gvkList of
        (err, c') \<Rightarrow> (err, m\<lparr>Manager := c'\<rparr>))"

definition NotifySystemDependencies ::
  "PlatformManager \<Rightarrow> string \<Rightarrow> error option \<times> PlatformManager" where
  "NotifySystemDependencies m namespace = notifyControllers m namespace systemDependencies"

text \<open>
  \<^verbatim>\<open>client.ObjectKeyFromObject\<close> and the metadata accessor fail on a value without
  object metadata.  \<^verbatim>\<open>%+v\<close> of the key prints namespace and name.
\<close>

definition ObjectKeyFromObject :: "runtime_Object \<Rightarrow> error + (string \<times> string)" where
  "ObjectKeyFromObject object =
     (case object of
        WithMeta obj \<Rightarrow> Inr (Namespace obj, Name obj)
      | WithoutMeta \<Rightarrow> Inl (ApiError ''object does not implement the Object interfaces''))"

definition accessor_Annotations :: "runtime_Object \<Rightarrow> error + (string \<rightharpoonup> string) option" where
  "accessor_Annotations object =
     (case object of
        WithMeta obj \<Rightarrow> Inr (Annotations obj)
      | WithoutMeta \<Rightarrow> Inl (ApiError ''object does not implement the Object interfaces''))"

definition accessor_SetAnnotations ::
  "runtime_Object \<Rightarrow> (string \<rightharpoonup> string) \<Rightarrow> error + Resource" where
  "accessor_SetAnnotations object annotations =
     (case object of
        WithMeta obj \<Rightarrow> Inr (obj\<lparr>Annotations := Some annotations\<rparr>)
      | WithoutMeta \<Rightarrow> Inl (ApiError ''object does not implement the Object interfaces''))"

definition format_key :: "string \<times> string \<Rightarrow> string" where
  "format_key k = fst k @ ''/'' @ snd k"

text \<open>
  \<^verbatim>\<open>Get\<close> reads the stored object of the type of \<^verbatim>\<open>result\<close> (a deep copy of the
  argument) under the key.
\<close>

definition get_into ::
  "Client \<Rightarrow> string \<times> string \<Rightarrow> runtime_Object \<Rightarrow> (error + runtime_Object) \<times> Client" where
  "get_into c k result =
     (case result of
        WithMeta obj \<Rightarrow>
          (case client_Get c (TypeMeta obj) (fst k) (snd k) of
             (Inl err, c') \<Rightarrow> (Inl err, c')
           | (Inr x, c') \<Rightarrow> (Inr (WithMeta x), c'))
      | WithoutMeta \<Rightarrow> (Inl (ApiError ''no kind is registered for the type''), c))"

definition notifyControllerClient :: "Client \<Rightarrow> runtime_Object \<Rightarrow> error option \<times> Client" where
  "notifyControllerClient c object =
     (case ObjectKeyFromObject object of
        Inl err \<Rightarrow> (Some err, c)
      | Inr k \<Rightarrow>
          (case get_into c k object of
             (Inl err, c') \<Rightarrow> (Some (Wrap err (''failed to query resource '' @ format_key k)), c')
           | (Inr result, c') \<Rightarrow>
               (case accessor_Annotations result of
                  Inl err \<Rightarrow> (Some (Wrap err ''failed to get annotations via accessor''), c')
                | Inr annotations \<Rightarrow>
                    (case accessor_SetAnnotations result (bumpAnnotations annotations) of
                       Inl err \<Rightarrow> (Some (Wrap err ''failed to set annotations via accessor''), c')
                     | Inr result' \<Rightarrow>
                         (case client_Update c' result' of
                            (Some err, c'') \<Rightarrow>
                              (Some (Wrap err ''failed to notify host controller''), c'')
                          | (None, c'') \<Rightarrow> (None, c''))))))"

definition notifyController ::
  "PlatformManager \<Rightarrow> runtime_Object \<Rightarrow> error option \<times> PlatformManager" where
  "notifyController m object =
     (case notifyControllerClient (GetClient m) object of
        (err, c') \<Rightarrow> (err, m\<lparr>Manager := c'\<rparr>))"

definition NotifyResource ::
  "PlatformManager \<Rightarrow> runtime_Object \<Rightarrow> error option \<times> PlatformManager" where
  "NotifyResource m object = notifyController m object"

subsection \<open>The namespace registry\<close>

text \<open>
  Every method returns the manager it leaves, also the getters: that a getter leaves the
  registry as it found it is then a statement about the code, not about the model's types.
\<close>

definition GetPlatformClient ::
  "PlatformManager \<Rightarrow> string \<Rightarrow> ServiceClient option \<times> PlatformManager" where
  "GetPlatformClient m namespace =
     (case systems m namespace of
        Some obj \<Rightarrow> (client obj, m)
      | None \<Rightarrow> (None, m))"

definition ResetPlatformClient ::
  "PlatformManager \<Rightarrow> string \<Rightarrow> (error option, PlatformManager) outcome" where
  "ResetPlatformClient m namespace =
     (case systems m namespace of
        Some obj \<Rightarrow>
          if client obj = None then Return None m
          else NotifySystemController
                 (m\<lparr>systems := (systems m)(namespace \<mapsto> obj\<lparr>client := None\<rparr>)\<rparr>) namespace
      | None \<Rightarrow> Return None m)"

definition SetSystemReady :: "PlatformManager \<Rightarrow> string \<Rightarrow> bool \<Rightarrow> PlatformManager" where
  "SetSystemReady m namespace v =
     (case systems m namespace of
        None \<Rightarrow>
          m\<lparr>systems := (systems m)(namespace \<mapsto> \<lparr>client = None, ready = v, systemType = []\<rparr>)\<rparr>
      | Some obj \<Rightarrow> m\<lparr>systems := (systems m)(namespace \<mapsto> obj\<lparr>ready := v\<rparr>)\<rparr>)"

definition GetSystemReady :: "PlatformManager \<Rightarrow> string \<Rightarrow> bool \<times> PlatformManager" where
  "GetSystemReady m namespace =
     (case systems m namespace of
        None \<Rightarrow> (False, m)
      | Some obj \<Rightarrow> (ready obj, m))"

definition SetSystemType :: "PlatformManager \<Rightarrow> string \<Rightarrow> SystemType \<Rightarrow> PlatformManager" where
  "SetSystemType m namespace v =
     (case systems m namespace of
        None \<Rightarrow>
          m\<lparr>systems := (systems m)(namespace \<mapsto> \<lparr>client = None, ready = False, systemType = v\<rparr>)\<rparr>
      | Some obj \<Rightarrow>
          if systemType obj \<noteq> v
          then m\<lparr>systems := (systems m)(namespace \<mapsto> obj\<lparr>systemType := v\<rparr>)\<rparr>
          else m)"

definition GetSystemType :: "PlatformManager \<Rightarrow> string \<Rightarrow> SystemType \<times> PlatformManager" where
  "GetSystemType m namespace =
     (case systems m namespace of
        None \<Rightarrow> ([], m)
      | Some obj \<Rightarrow> (systemType obj, m))"

text \<open>
  Modelled from the spec: \<^verbatim>\<open>BuildPlatformClient\<close>, a method of the \<^verbatim>\<open>CloudManager\<close>
  interface whose body is missing from the sources at hand.  It delegates to an external
  factory; on success it stores the handle, replacing any prior value, and returns it; on
  failure it returns a client-construction error without mutating the registry.  The
  factory's result is the argument \<open>built\<close>.
\<close>

definition BuildPlatformClient ::
  "PlatformManager \<Rightarrow> string \<Rightarrow> error + ServiceClient
     \<Rightarrow> (error + ServiceClient) \<times> PlatformManager" where
  "BuildPlatformClient m namespace built =
     (case built of
        Inl err \<Rightarrow> (Inl err, m)
      | Inr h \<Rightarrow>
          (Inr h,
           m\<lparr>systems := (systems m)(namespace \<mapsto>
                (case systems m namespace of
                   None \<Rightarrow> \<lparr>client = Some h, ready = False, systemType = []\<rparr>
                 | Some obj \<Rightarrow> obj\<lparr>client := Some h\<rparr>))\<rparr>))"

subsection \<open>The monitor registry\<close>

text \<open>
  Modelled from the spec: the type \<^verbatim>\<open>Monitor\<close>, its methods \<^verbatim>\<open>GetKey\<close>,
  \<^verbatim>\<open>Start\<close> and \<^verbatim>\<open>Stop\<close>, and \<^verbatim>\<open>BuildMonitorKey\<close>, all missing from the sources
  at hand.  A monitor is identified by a stable key derived from the owning resource's
  group, version, kind, namespace and name; its state machine is idle, running, stopped;
  \<^verbatim>\<open>Start\<close> takes idle or stopped to running, \<^verbatim>\<open>Stop\<close> takes running to stopped and
  is idempotent.

  The registry holds pointers to monitors.  A \<open>monitor_ref\<close> is a non-nil pointer; the
  monitors live in \<open>cell\<close>, and \<open>invoked\<close> records every call of a monitor's method.
\<close>

datatype monitor_state = Idle | Running | Stopped

record Monitor =
  key :: string
  state :: monitor_state

datatype monitor_call = StartCall monitor_ref | StopCall monitor_ref

record MonitorHeap =
  cell :: "monitor_ref \<Rightarrow> Monitor"
  invoked :: "monitor_call list"

definition GetKey :: "MonitorHeap \<Rightarrow> monitor_ref \<Rightarrow> string" where
  "GetKey h monitor = key (cell h monitor)"

definition Monitor_Start :: "MonitorHeap \<Rightarrow> monitor_ref \<Rightarrow> MonitorHeap" where
  "Monitor_Start h monitor =
     h\<lparr>cell := (cell h)(monitor := (cell h monitor)\<lparr>state := Running\<rparr>),
       invoked := invoked h @ [StartCall monitor]\<rparr>"

definition Monitor_Stop :: "MonitorHeap \<Rightarrow> monitor_ref \<Rightarrow> MonitorHeap" where
  "Monitor_Stop h monitor =
     h\<lparr>cell := (cell h)(monitor := (cell h monitor)
                  \<lparr>state := (if state (cell h monitor) = Running then Stopped
                             else state (cell h monitor))\<rparr>),
       invoked := invoked h @ [StopCall monitor]\<rparr>"

definition BuildMonitorKey :: "runtime_Object \<Rightarrow> string" where
  "BuildMonitorKey object =
     (case object of
        WithMeta obj \<Rightarrow>
          Group (TypeMeta obj) @ ''/'' @ Version (TypeMeta obj) @ ''/'' @ Kind (TypeMeta obj)
            @ ''/'' @ Namespace obj @ ''/'' @ Name obj
      | WithoutMeta \<Rightarrow> ''////'')"

text \<open>
  \<^verbatim>\<open>
  func (m *PlatformManager) StartMonitor(monitor *Monitor, message string) error {
      key := monitor.GetKey()
      m.monitors[key] = monitor
      monitor.Start(m)
      return NewWaitForMonitor(message)
  }
  \<close>
\<close>

definition StartMonitor ::
  "PlatformManager \<Rightarrow> MonitorHeap \<Rightarrow> monitor_ref \<Rightarrow> string
     \<Rightarrow> error option \<times> PlatformManager \<times> MonitorHeap" where
  "StartMonitor m h monitor message =
     (let k = GetKey h monitor;
          m' = m\<lparr>monitors := (monitors m)(k \<mapsto> monitor)\<rparr>;
          h' = Monitor_Start h monitor
      in (NewWaitForMonitor message, m', h'))"

definition CancelMonitor ::
  "PlatformManager \<Rightarrow> MonitorHeap \<Rightarrow> runtime_Object \<Rightarrow> PlatformManager \<times> MonitorHeap" where
  "CancelMonitor m h object =
     (let k = BuildMonitorKey object
      in case monitors m k of
           Some monitor \<Rightarrow> (m\<lparr>monitors := (monitors m)(k := None)\<rparr>, Monitor_Stop h monitor)
         | None \<Rightarrow> (m, h))"

subsection \<open>Runs of the coordinator\<close>

text \<open>
  The operations of the \<^verbatim>\<open>CloudManager\<close> interface, and \<open>OpCluster f\<close> for a change
  of the cluster store made by anybody else.  A run applies operations one after the other
  (each holds the lock for its whole body).  A panic normally ends the process; a run goes
  on from the state the panic left, which covers a recovered panic as well.
\<close>

datatype operation =
    OpResetPlatformClient string
  | OpGetPlatformClient string
  | OpBuildPlatformClient string "error + ServiceClient"
  | OpNotifySystemDependencies string
  | OpNotifyResource runtime_Object
  | OpSetSystemReady string bool
  | OpGetSystemReady string
  | OpSetSystemType string SystemType
  | OpGetSystemType string
  | OpStartMonitor monitor_ref string
  | OpCancelMonitor runtime_Object
  | OpCluster "Client \<Rightarrow> Client"

definition after :: "('a, 's) outcome \<Rightarrow> 's" where
  "after out = (case out of Return v s \<Rightarrow> s | Panic p s \<Rightarrow> s)"

fun step :: "PlatformManager \<times> MonitorHeap \<Rightarrow> operation \<Rightarrow> PlatformManager \<times> MonitorHeap" where
  "step (m, h) (OpResetPlatformClient n) = (after (ResetPlatformClient m n), h)"
| "step (m, h) (OpGetPlatformClient n) = (snd (GetPlatformClient m n), h)"
| "step (m, h) (OpBuildPlatformClient n built) = (snd (BuildPlatformClient m n built), h)"
| "step (m, h) (OpNotifySystemDependencies n) = (snd (NotifySystemDependencies m n), h)"
| "step (m, h) (OpNotifyResource object) = (snd (NotifyResource m object), h)"
| "step (m, h) (OpSetSystemReady n v) = (SetSystemReady m n v, h)"
| "step (m, h) (OpGetSystemReady n) = (snd (GetSystemReady m n), h)"
| "step (m, h) (OpSetSystemType n v) = (SetSystemType m n v, h)"
| "step (m, h) (OpGetSystemType n) = (snd (GetSystemType m n), h)"
| "step (m, h) (OpStartMonitor monitor message) = snd (StartMonitor m h monitor message)"
| "step (m, h) (OpCancelMonitor object) = CancelMonitor m h object"
| "step (m, h) (OpCluster f) = (m\<lparr>Manager := f (Manager m)\<rparr>, h)"

definition run ::
  "PlatformManager \<times> MonitorHeap \<Rightarrow> operation list \<Rightarrow> PlatformManager \<times> MonitorHeap" where
  "run w ops = foldl step w ops"

fun successful_build :: "string \<Rightarrow> operation \<Rightarrow> bool" where
  "successful_build n (OpBuildPlatformClient n' (Inr h)) = (n' = n)"
| "successful_build n _ = False"

subsection \<open>Sample states\<close>

text \<open>
  A cluster that rejects no call and holds, in namespace \<open>ns1\<close>, one host without
  annotations and one system whose counter is 7; a manager on it that has a client for
  \<open>ns1\<close> and a running monitor registered under the key \<open>k\<close>; monitors 7 and 8 both
  have that key.
\<close>

definition gvk_of :: "string \<Rightarrow> GroupVersionKind" where
  "gvk_of k = \<lparr>Group = v1_Group, Version = v1_Version, Kind = k\<rparr>"

definition host1 :: Resource where
  "host1 = \<lparr>TypeMeta = gvk_of KindHost, Namespace = ''ns1'', Name = ''controller-0'',
             Annotations = None\<rparr>"

definition system1 :: Resource where
  "system1 = \<lparr>TypeMeta = gvk_of KindSystem, Namespace = ''ns1'', Name = ''system'',
               Annotations = Some [NotificationCountKey \<mapsto> ''7'']\<rparr>"

definition cluster1 :: Client where
  "cluster1 = \<lparr>objects = [host1, system1], list_error = (\<lambda>gvk ns. None),
                get_error = (\<lambda>gvk ns nm. None), update_error = (\<lambda>obj. None),
                requests = []\<rparr>"

definition manager1 :: PlatformManager where
  "manager1 = \<lparr>Manager = cluster1,
                systems = [''ns1'' \<mapsto> \<lparr>client = Some 5, ready = True, systemType = ''standard''\<rparr>],
                monitors = [''k'' \<mapsto> 7]\<rparr>"

definition heap1 :: MonitorHeap where
  "heap1 = \<lparr>cell = (\<lambda>r. \<lparr>key = ''k'', state = (if r = 7 then Running else Idle)\<rparr>),
             invoked = []\<rparr>"

text \<open>
  A run in which the client of \<open>ns1\<close> is never built: a failed build for \<open>ns1\<close> and a
  successful build for another namespace are part of it.
\<close>

definition ops1 :: "operation list" where
  "ops1 = [OpSetSystemReady ''ns1'' True,
           OpBuildPlatformClient ''ns1'' (Inl (ClientError ''unreachable'')),
           OpBuildPlatformClient ''ns2'' (Inr 3),
           OpSetSystemType ''ns1'' ''standard'',
           OpResetPlatformClient ''ns1'',
           OpGetPlatformClient ''ns1'']"

subsection \<open>Notions used to state the properties of the cascade\<close>

text \<open>
  The store is well formed when no two objects have the same type, namespace and name.
  \<open>dependents c n gvks\<close> are the objects that the cascade visits, in the order of its
  visit: kind after kind, and the objects of a kind in the order of the store.
  \<open>updated\<close> and \<open>listed\<close> read the record of requests.
\<close>

definition wf_store :: "Client \<Rightarrow> bool" where
  "wf_store c = distinct (map identity (objects c))"

definition dependents :: "Client \<Rightarrow> string \<Rightarrow> GroupVersionKind list \<Rightarrow> Resource list" where
  "dependents c n gvks = concat (map (\<lambda>gvk. filter (selected gvk n) (objects c)) gvks)"

fun updated :: "request list \<Rightarrow> Resource list" where
  "updated [] = []"
| "updated (UpdateRequest obj # rs) = obj # updated rs"
| "updated (r # rs) = updated rs"

fun listed :: "request list \<Rightarrow> (GroupVersionKind \<times> string) list" where
  "listed [] = []"
| "listed (ListRequest gvk ns # rs) = (gvk, ns) # listed rs"
| "listed (r # rs) = listed rs"

text \<open>
  A system without annotations, as the API server returns an object that was created
  without any; a cluster that holds it; a manager that has a client for its namespace.
\<close>

definition system2 :: Resource where
  "system2 = \<lparr>TypeMeta = gvk_of KindSystem, Namespace = ''ns2'', Name = ''system'',
               Annotations = None\<rparr>"

definition cluster2 :: Client where
  "cluster2 = \<lparr>objects = [system2], list_error = (\<lambda>gvk ns. None),
                get_error = (\<lambda>gvk ns nm. None), update_error = (\<lambda>obj. None),
                requests = []\<rparr>"

definition manager2 :: PlatformManager where
  "manager2 = \<lparr>Manager = cluster2,
                systems = [''ns2'' \<mapsto> \<lparr>client = Some 5, ready = True, systemType = ''standard''\<rparr>],
                monitors = Map.empty\<rparr>"

text \<open>
  A cluster with a host of another namespace (counter 3) and a host profile beside the
  objects of \<open>cluster1\<close>; and a cluster that rejects every update of the host
  \<open>controller-1\<close>, whose counter is malformed.
\<close>

definition host2 :: Resource where
  "host2 = \<lparr>TypeMeta = gvk_of KindHost, Namespace = ''ns2'', Name = ''controller-0'',
             Annotations = Some [NotificationCountKey \<mapsto> ''3'']\<rparr>"

definition profile1 :: Resource where
  "profile1 = \<lparr>TypeMeta = gvk_of KindHostProfile, Namespace = ''ns1'', Name = ''profile'',
                Annotations = None\<rparr>"

definition cluster3 :: Client where
  "cluster3 = \<lparr>objects = [host1, host2, profile1, system1], list_error = (\<lambda>gvk ns. None),
                get_error = (\<lambda>gvk ns nm. None), update_error = (\<lambda>obj. None),
                requests = []\<rparr>"

definition host3 :: Resource where
  "host3 = \<lparr>TypeMeta = gvk_of KindHost, Namespace = ''ns1'', Name = ''controller-1'',
             Annotations = Some [NotificationCountKey \<mapsto> ''x'']\<rparr>"

definition net1 :: Resource where
  "net1 = \<lparr>TypeMeta = gvk_of KindPlatformNetwork, Namespace = ''ns1'', Name = ''mgmt'',
            Annotations = None\<rparr>"

definition cluster4 :: Client where
  "cluster4 = \<lparr>objects = [host1, host3, net1], list_error = (\<lambda>gvk ns. None),
                get_error = (\<lambda>gvk ns nm. None),
                update_error = (\<lambda>obj. if Name obj = ''controller-1''
                                 then Some (ApiError ''conflict'') else None),
                requests = []\<rparr>"

section \<open>Properties of the counter derivation\<close>

lemma formatInt_1: "formatInt 1 = ''1''"
  by code_simp

lemma Itoa_1: "Itoa 1 = ''1''"
  by (simp add: Itoa_def formatInt_1)

lemma getNextCount_unparseable: "Atoi s = None \<Longrightarrow> getNextCount s = ''1''"
  by (simp add: getNextCount_def Itoa_1)

lemma getNextCount_empty: "getNextCount [] = ''1''"
  by (simp add: getNextCount_def Itoa_1)

lemma sint_succ_in_range:
  assumes "MinInt \<le> n" and "n < MaxInt"
  shows "sint ((word_of_int n :: 64 word) + 1) = n + 1"
proof -
  have "(word_of_int n :: 64 word) + 1 = word_of_int (n + 1)"
    by simp
  moreover have "sint (word_of_int (n + 1) :: 64 word) = n + 1"
    unfolding sint_sbintrunc' using assms
    by (intro signed_take_bit_int_eq_self) (simp_all add: MinInt_def MaxInt_def)
  ultimately show ?thesis
    by simp
qed

lemma getNextCount_in_range:
  assumes "signedValue s = Some n" and "MinInt \<le> n" and "n < MaxInt"
  shows "getNextCount s = formatInt (n + 1)"
proof -
  from assms(1) have ne: "s \<noteq> []"
    by (auto simp: signedValue_def)
  from assms have "Atoi s = Some (word_of_int n)"
    by (simp add: Atoi_def)
  with ne show ?thesis
    using sint_succ_in_range [OF assms(2,3)] by (simp add: getNextCount_def Itoa_def)
qed

lemma getNextCount_out_of_range:
  assumes "signedValue s = Some n" and "n < MinInt \<or> MaxInt < n"
  shows "getNextCount s = ''1''"
  using assms by (intro getNextCount_unparseable) (auto simp: Atoi_def)

lemma getNextCount_syntax_error:
  assumes "signedValue s = None"
  shows "getNextCount s = ''1''"
  using assms by (intro getNextCount_unparseable) (simp add: Atoi_def)

text \<open>
  The formatter and the reader agree: the decimal text of every integer denotes that
  integer, so \<open>formatInt\<close> is the decimal representation the claim speaks of.
\<close>

lemma parseDigits_snoc:
  "parseDigits n (s @ [ch]) =
     (case parseDigits n s of
        None \<Rightarrow> None
      | Some m \<Rightarrow> if isDigit ch then Some (m * 10 + digitVal ch) else None)"
  by (induction s arbitrary: n) auto

lemma digit_char:
  assumes "0 \<le> d" and "d < 10"
  shows "isDigit (char_of (48 + d)) \<and> digitVal (char_of (48 + d)) = d"
proof -
  have "(of_char (char_of (48 + d)) :: int) = (48 + d) mod 256"
    by (simp add: of_char_of)
  also have "\<dots> = 48 + d"
    using assms by simp
  finally show ?thesis
    using assms by (simp add: isDigit_def digitVal_def)
qed

lemma parseDigits_formatBits: "0 \<le> u \<Longrightarrow> parseDigits 0 (formatBits u) = Some u"
proof (induction u rule: formatBits.induct)
  case (1 u)
  show ?case
  proof (cases "u < 10")
    case True
    with "1.prems" digit_char [of u] show ?thesis
      by (simp add: formatBits.simps [of u])
  next
    case False
    then have ih: "parseDigits 0 (formatBits (u div 10)) = Some (u div 10)"
      using "1.IH" "1.prems" by simp
    have "0 \<le> u mod 10" and "u mod 10 < 10"
      by simp_all
    then have d: "isDigit (char_of (48 + u mod 10))" "digitVal (char_of (48 + u mod 10)) = u mod 10"
      using digit_char [of "u mod 10"] by simp_all
    from False have "formatBits u = formatBits (u div 10) @ [char_of (48 + u mod 10)]"
      by (simp add: formatBits.simps [of u])
    then show ?thesis
      by (simp add: parseDigits_snoc ih d)
  qed
qed

lemma formatBits_nonempty: "formatBits u \<noteq> []"
  by (subst formatBits.simps) simp

lemma formatBits_hd_digit: "0 \<le> u \<Longrightarrow> isDigit (hd (formatBits u))"
proof (induction u rule: formatBits.induct)
  case (1 u)
  show ?case
  proof (cases "u < 10")
    case True
    with "1.prems" digit_char [of u] show ?thesis
      by (simp add: formatBits.simps [of u])
  next
    case False
    then have "isDigit (hd (formatBits (u div 10)))"
      using "1.IH" "1.prems" by simp
    with False show ?thesis
      by (simp add: formatBits.simps [of u] formatBits_nonempty)
  qed
qed

lemma isDigit_not_sign: "isDigit ch \<Longrightarrow> ch \<noteq> CHR ''-'' \<and> ch \<noteq> CHR ''+''"
  by (auto simp: isDigit_def)

lemma signedValue_formatInt: "signedValue (formatInt n) = Some n"
proof (cases "n < 0")
  case True
  then have "parseDigits 0 (formatBits (- n)) = Some (- n)"
    by (intro parseDigits_formatBits) simp
  with True show ?thesis
    by (simp add: signedValue_def formatInt_def formatBits_nonempty)
next
  case False
  then have p: "parseDigits 0 (formatBits n) = Some n"
    by (intro parseDigits_formatBits) simp
  from False have "isDigit (hd (formatBits n))"
    by (intro formatBits_hd_digit) simp
  then have "hd (formatBits n) \<noteq> CHR ''-''" "hd (formatBits n) \<noteq> CHR ''+''"
    using isDigit_not_sign by blast+
  with False p show ?thesis
    by (simp add: signedValue_def formatInt_def formatBits_nonempty)
qed

text \<open>
  C4 (as stated): a string parseable as a decimal integer \<open>n\<close> is mapped to the decimal
  representation of \<open>n + 1\<close>.  The text of the largest \<^verbatim>\<open>int\<close> is parseable, the
  addition wraps around, and the result is the text of the smallest \<^verbatim>\<open>int\<close>, not of
  \<open>n + 1\<close>.
\<close>

theorem getNextCount_wraps_counterexample:
  "signedValue ''9223372036854775807'' = Some 9223372036854775807
   \<and> getNextCount ''9223372036854775807'' = ''-9223372036854775808''
   \<and> getNextCount ''9223372036854775807'' \<noteq> formatInt (9223372036854775807 + 1)"
  by code_simp

text \<open>
  C4 (amended): \<^verbatim>\<open>getNextCount\<close> maps the empty string to "1", "7" to "8" and
  "not-a-number" to "1"; a string that denotes a decimal integer \<open>n\<close> with
  \<open>-2^63 \<le> n < 2^63 - 1\<close> to the decimal representation of \<open>n + 1\<close>; a string that
  denotes an integer outside the range of \<^verbatim>\<open>int\<close>, and a string that denotes no
  integer, to "1".  The function is total: it returns a string for every input.
\<close>

theorem getNextCount_spec:
  "getNextCount '''' = ''1''
   \<and> getNextCount ''7'' = ''8''
   \<and> getNextCount ''not-a-number'' = ''1''
   \<and> (\<forall>s n. signedValue s = Some n \<and> MinInt \<le> n \<and> n < MaxInt
          \<longrightarrow> getNextCount s = formatInt (n + 1))
   \<and> (\<forall>s n. signedValue s = Some n \<and> (n < MinInt \<or> MaxInt < n)
          \<longrightarrow> getNextCount s = ''1'')
   \<and> (\<forall>s. signedValue s = None \<longrightarrow> getNextCount s = ''1'')"
proof -
  have "getNextCount ''7'' = ''8''"
    by code_simp
  moreover have "getNextCount ''not-a-number'' = ''1''"
    by code_simp
  ultimately show ?thesis
    using getNextCount_empty getNextCount_in_range getNextCount_out_of_range
      getNextCount_syntax_error
    by blast
qed

theorem getNextCount_spec_witness:
  "signedValue ''41'' = Some 41 \<and> getNextCount ''41'' = ''42''
   \<and> signedValue ''99999999999999999999'' = Some 99999999999999999999
   \<and> getNextCount ''99999999999999999999'' = ''1''
   \<and> signedValue ''4x'' = None \<and> getNextCount ''4x'' = ''1''"
proof -
  have v1: "signedValue ''41'' = Some 41"
    by code_simp
  have r1: "MinInt \<le> 41 \<and> 41 < MaxInt"
    by (simp add: MinInt_def MaxInt_def)
  have f1: "formatInt (41 + 1) = ''42''"
    by code_simp
  have v2: "signedValue ''99999999999999999999'' = Some 99999999999999999999"
    by code_simp
  have r2: "99999999999999999999 < MinInt \<or> MaxInt < 99999999999999999999"
    by (simp add: MinInt_def MaxInt_def)
  have v3: "signedValue ''4x'' = None"
    by code_simp
  from getNextCount_spec have
    a: "\<forall>s n. signedValue s = Some n \<and> MinInt \<le> n \<and> n < MaxInt
          \<longrightarrow> getNextCount s = formatInt (n + 1)" and
    b: "\<forall>s n. signedValue s = Some n \<and> (n < MinInt \<or> MaxInt < n)
          \<longrightarrow> getNextCount s = ''1''" and
    c: "\<forall>s. signedValue s = None \<longrightarrow> getNextCount s = ''1''"
    by blast+
  from a v1 r1 have "getNextCount ''41'' = formatInt (41 + 1)"
    by blast
  moreover from b v2 r2 have "getNextCount ''99999999999999999999'' = ''1''"
    by blast
  moreover from c v3 have "getNextCount ''4x'' = ''1''"
    by blast
  ultimately show ?thesis
    using v1 v2 v3 f1 by simp
qed

section \<open>The registries\<close>

lemma with_client_after [simp]:
  "systems (after (with_client m out)) = systems m"
  "monitors (after (with_client m out)) = monitors m"
  by (cases out; simp add: with_client_def after_def)+

lemma NotifySystemController_registries [simp]:
  "systems (after (NotifySystemController m n)) = systems m"
  "monitors (after (NotifySystemController m n)) = monitors m"
  by (auto simp: NotifySystemController_def split: prod.splits sum.splits)
    (simp_all add: after_def)

text \<open>
  C10: for a namespace without a registry entry, \<^verbatim>\<open>GetSystemReady\<close> returns false and
  \<^verbatim>\<open>GetSystemType\<close> returns the empty system type, and each leaves the manager (the
  registries included) exactly as it was.
\<close>

theorem getters_default:
  assumes "systems m n = None"
  shows "GetSystemReady m n = (False, m) \<and> GetSystemType m n = ([], m)"
  using assms by (simp add: GetSystemReady_def GetSystemType_def)

theorem getters_default_witness:
  "systems manager1 ''ns2'' = None
   \<and> GetSystemReady manager1 ''ns2'' = (False, manager1)
   \<and> GetSystemType manager1 ''ns2'' = ([], manager1)"
proof -
  have h: "systems manager1 ''ns2'' = None"
    by (simp add: manager1_def)
  from getters_default [OF h] h show ?thesis
    by simp
qed

lemma SetSystemReady_entry:
  "systems m n = Some obj \<Longrightarrow>
     SetSystemReady m n v = m\<lparr>systems := (systems m)(n \<mapsto> obj\<lparr>ready := v\<rparr>)\<rparr>"
  by (simp add: SetSystemReady_def)

lemma SetSystemType_entry:
  assumes entry: "systems m n = Some obj"
  shows "SetSystemType m n t = m\<lparr>systems := (systems m)(n \<mapsto> obj\<lparr>systemType := t\<rparr>)\<rparr>"
proof (cases "systemType obj = t")
  case True
  then have "obj\<lparr>systemType := t\<rparr> = obj"
    by (cases obj) simp
  then have "(systems m)(n \<mapsto> obj\<lparr>systemType := t\<rparr>) = systems m"
    using entry by (simp add: map_upd_triv)
  then have "m\<lparr>systems := (systems m)(n \<mapsto> obj\<lparr>systemType := t\<rparr>)\<rparr> = m"
    by simp
  moreover from True entry have "SetSystemType m n t = m"
    by (simp add: SetSystemType_def)
  ultimately show ?thesis
    by simp
next
  case False
  with entry show ?thesis
    by (simp add: SetSystemType_def)
qed

lemma setters_fresh:
  "systems m n = None \<Longrightarrow>
     systems (SetSystemReady m n v) n = Some \<lparr>client = None, ready = v, systemType = []\<rparr>
     \<and> systems (SetSystemType m n t) n = Some \<lparr>client = None, ready = False, systemType = t\<rparr>"
  by (simp add: SetSystemReady_def SetSystemType_def)

lemma setters_other:
  "n' \<noteq> n \<Longrightarrow>
     systems (SetSystemReady m n v) n' = systems m n'
     \<and> systems (SetSystemType m n t) n' = systems m n'"
  by (simp add: SetSystemReady_def SetSystemType_def split: option.split)

lemma setters_dom:
  "dom (systems (SetSystemReady m n v)) = insert n (dom (systems m))"
  "dom (systems (SetSystemType m n t)) = insert n (dom (systems m))"
  by (auto simp: SetSystemReady_def SetSystemType_def split: option.splits if_splits)

lemma setters_rest:
  "monitors (SetSystemReady m n v) = monitors m" "Manager (SetSystemReady m n v) = Manager m"
  "monitors (SetSystemType m n t) = monitors m" "Manager (SetSystemType m n t) = Manager m"
  by (simp_all add: SetSystemReady_def SetSystemType_def split: option.split)

text \<open>
  C9: on a namespace with an entry, \<^verbatim>\<open>SetSystemReady\<close> changes the field \<open>ready\<close> of
  that entry and nothing else, and \<^verbatim>\<open>SetSystemType\<close> changes the field
  \<open>systemType\<close> and nothing else.  An entry is created only for a namespace that has none,
  so no field written before is lost; every other namespace keeps its entry; and the
  namespace written has exactly one entry afterwards (the registry is a map).
\<close>

theorem setters_frame:
  "(\<forall>obj. systems m n = Some obj \<longrightarrow>
      SetSystemReady m n v = m\<lparr>systems := (systems m)(n \<mapsto> obj\<lparr>ready := v\<rparr>)\<rparr>
      \<and> SetSystemType m n t = m\<lparr>systems := (systems m)(n \<mapsto> obj\<lparr>systemType := t\<rparr>)\<rparr>)
   \<and> (systems m n = None \<longrightarrow>
      systems (SetSystemReady m n v) n = Some \<lparr>client = None, ready = v, systemType = []\<rparr>
      \<and> systems (SetSystemType m n t) n = Some \<lparr>client = None, ready = False, systemType = t\<rparr>)
   \<and> (\<forall>n'. n' \<noteq> n \<longrightarrow>
      systems (SetSystemReady m n v) n' = systems m n'
      \<and> systems (SetSystemType m n t) n' = systems m n')
   \<and> dom (systems (SetSystemReady m n v)) = insert n (dom (systems m))
   \<and> dom (systems (SetSystemType m n t)) = insert n (dom (systems m))
   \<and> monitors (SetSystemReady m n v) = monitors m \<and> Manager (SetSystemReady m n v) = Manager m
   \<and> monitors (SetSystemType m n t) = monitors m \<and> Manager (SetSystemType m n t) = Manager m"
proof -
  have a: "\<forall>obj. systems m n = Some obj \<longrightarrow>
      SetSystemReady m n v = m\<lparr>systems := (systems m)(n \<mapsto> obj\<lparr>ready := v\<rparr>)\<rparr>
      \<and> SetSystemType m n t = m\<lparr>systems := (systems m)(n \<mapsto> obj\<lparr>systemType := t\<rparr>)\<rparr>"
    using SetSystemReady_entry SetSystemType_entry by blast
  have b: "systems m n = None \<longrightarrow>
      systems (SetSystemReady m n v) n = Some \<lparr>client = None, ready = v, systemType = []\<rparr>
      \<and> systems (SetSystemType m n t) n = Some \<lparr>client = None, ready = False, systemType = t\<rparr>"
    using setters_fresh by blast
  have c: "\<forall>n'. n' \<noteq> n \<longrightarrow>
      systems (SetSystemReady m n v) n' = systems m n'
      \<and> systems (SetSystemType m n t) n' = systems m n'"
    using setters_other by blast
  from a b c show ?thesis
    by (simp only: setters_dom setters_rest simp_thms)
qed


theorem setters_frame_witness:
  "systems manager1 ''ns1'' = Some \<lparr>client = Some 5, ready = True, systemType = ''standard''\<rparr>
   \<and> systems (SetSystemReady manager1 ''ns1'' False) ''ns1''
       = Some \<lparr>client = Some 5, ready = False, systemType = ''standard''\<rparr>
   \<and> systems (SetSystemType manager1 ''ns1'' ''all-in-one'') ''ns1''
       = Some \<lparr>client = Some 5, ready = True, systemType = ''all-in-one''\<rparr>
   \<and> systems manager1 ''ns2'' = None
   \<and> systems (SetSystemType manager1 ''ns2'' ''all-in-one'') ''ns2''
       = Some \<lparr>client = None, ready = False, systemType = ''all-in-one''\<rparr>
   \<and> systems (SetSystemType manager1 ''ns2'' ''all-in-one'') ''ns1'' = systems manager1 ''ns1''"
proof -
  let ?obj = "\<lparr>client = Some 5, ready = True, systemType = ''standard''\<rparr>"
  note f1 = setters_frame [where m = manager1 and n = "''ns1''" and v = False
      and t = "''all-in-one''"]
  note f2 = setters_frame [where m = manager1 and n = "''ns2''" and v = False
      and t = "''all-in-one''"]
  have h1: "systems manager1 ''ns1'' = Some ?obj"
    by (simp add: manager1_def)
  have h2: "systems manager1 ''ns2'' = None"
    by (simp add: manager1_def)
  have d: "''ns1'' \<noteq> ''ns2''"
    by simp
  have a: "SetSystemReady manager1 ''ns1'' False
          = manager1\<lparr>systems := (systems manager1)(''ns1'' \<mapsto> ?obj\<lparr>ready := False\<rparr>)\<rparr>"
    using f1 [THEN conjunct1, rule_format, OF h1] by (rule conjunct1)
  have b: "SetSystemType manager1 ''ns1'' ''all-in-one''
          = manager1\<lparr>systems := (systems manager1)(''ns1'' \<mapsto> ?obj\<lparr>systemType := ''all-in-one''\<rparr>)\<rparr>"
    using f1 [THEN conjunct1, rule_format, OF h1] by (rule conjunct2)
  have c: "systems (SetSystemType manager1 ''ns2'' ''all-in-one'') ''ns2''
          = Some \<lparr>client = None, ready = False, systemType = ''all-in-one''\<rparr>"
    using f2 [THEN conjunct2, THEN conjunct1, rule_format, OF h2] by (rule conjunct2)
  have e: "systems (SetSystemType manager1 ''ns2'' ''all-in-one'') ''ns1'' = systems manager1 ''ns1''"
    using f2 [THEN conjunct2, THEN conjunct2, THEN conjunct1, rule_format, OF d]
    by (rule conjunct2)
  have a': "systems (SetSystemReady manager1 ''ns1'' False) ''ns1''
       = Some \<lparr>client = Some 5, ready = False, systemType = ''standard''\<rparr>"
    unfolding a by simp
  have b': "systems (SetSystemType manager1 ''ns1'' ''all-in-one'') ''ns1''
       = Some \<lparr>client = Some 5, ready = True, systemType = ''all-in-one''\<rparr>"
    unfolding b by simp
  from h1 a' b' h2 c e show ?thesis
    by (intro conjI)
qed

section \<open>The monitor registry\<close>

text \<open>
  C1: \<^verbatim>\<open>StartMonitor\<close> returns the \<^verbatim>\<open>WaitForMonitor\<close> signal that carries the
  message (so neither \<^verbatim>\<open>nil\<close> nor any other error), and in the manager it leaves the
  registry maps the monitor's key to the monitor, which is running.
\<close>

theorem StartMonitor_signal:
  "fst (StartMonitor m h monitor message) = Some (WaitForMonitor message)
   \<and> fst (StartMonitor m h monitor message) \<noteq> None
   \<and> monitors (fst (snd (StartMonitor m h monitor message)))
        (GetKey (snd (snd (StartMonitor m h monitor message))) monitor) = Some monitor
   \<and> GetKey (snd (snd (StartMonitor m h monitor message))) monitor = GetKey h monitor
   \<and> state (cell (snd (snd (StartMonitor m h monitor message))) monitor) = Running"
  by (simp add: StartMonitor_def NewWaitForMonitor_def Monitor_Start_def GetKey_def Let_def)

text \<open>
  C8: when the key of the monitor is already taken by another monitor, \<^verbatim>\<open>StartMonitor\<close>
  puts the new monitor in its place; the only method of a monitor it calls is \<^verbatim>\<open>Start\<close>
  of the new one, so the old monitor is not stopped and keeps the state it had.
  \<^verbatim>\<open>CancelMonitor\<close> on a registered key calls \<^verbatim>\<open>Stop\<close> of the registered monitor (a
  running monitor is stopped afterwards) and removes the entry.
\<close>

theorem StartMonitor_overwrites:
  "(monitors m (GetKey h monitor) = Some old \<longrightarrow>
      monitors (fst (snd (StartMonitor m h monitor message))) (GetKey h monitor) = Some monitor
      \<and> invoked (snd (snd (StartMonitor m h monitor message))) = invoked h @ [StartCall monitor]
      \<and> (old \<noteq> monitor \<longrightarrow>
           cell (snd (snd (StartMonitor m h monitor message))) old = cell h old))
   \<and> (monitors m (BuildMonitorKey object) = Some old \<longrightarrow>
      monitors (fst (CancelMonitor m h object)) (BuildMonitorKey object) = None
      \<and> invoked (snd (CancelMonitor m h object)) = invoked h @ [StopCall old]
      \<and> (state (cell h old) = Running \<longrightarrow>
           state (cell (snd (CancelMonitor m h object)) old) = Stopped))"
proof -
  have a: "monitors (fst (snd (StartMonitor m h monitor message))) (GetKey h monitor) = Some monitor"
    by (simp add: StartMonitor_def Let_def)
  have b: "invoked (snd (snd (StartMonitor m h monitor message))) = invoked h @ [StartCall monitor]"
    by (simp add: StartMonitor_def Monitor_Start_def Let_def)
  have c: "old \<noteq> monitor \<longrightarrow>
           cell (snd (snd (StartMonitor m h monitor message))) old = cell h old"
    by (simp add: StartMonitor_def Monitor_Start_def Let_def)
  have d: "monitors m (BuildMonitorKey object) = Some old \<longrightarrow>
      monitors (fst (CancelMonitor m h object)) (BuildMonitorKey object) = None
      \<and> invoked (snd (CancelMonitor m h object)) = invoked h @ [StopCall old]
      \<and> (state (cell h old) = Running \<longrightarrow>
           state (cell (snd (CancelMonitor m h object)) old) = Stopped)"
    by (simp add: CancelMonitor_def Monitor_Stop_def Let_def)
  from a b c d show ?thesis
    by blast
qed


theorem StartMonitor_overwrites_witness:
  "monitors manager1 (GetKey heap1 8) = Some 7
   \<and> monitors (fst (snd (StartMonitor manager1 heap1 8 ''wait''))) (GetKey heap1 8) = Some 8
   \<and> invoked (snd (snd (StartMonitor manager1 heap1 8 ''wait''))) = invoked heap1 @ [StartCall 8]
   \<and> state (cell (snd (snd (StartMonitor manager1 heap1 8 ''wait''))) 7) = Running
   \<and> monitors (manager1\<lparr>monitors := [''////'' \<mapsto> 7]\<rparr>) (BuildMonitorKey WithoutMeta) = Some 7
   \<and> monitors (fst (CancelMonitor (manager1\<lparr>monitors := [''////'' \<mapsto> 7]\<rparr>) heap1 WithoutMeta))
        (BuildMonitorKey WithoutMeta) = None
   \<and> invoked (snd (CancelMonitor (manager1\<lparr>monitors := [''////'' \<mapsto> 7]\<rparr>) heap1 WithoutMeta))
        = invoked heap1 @ [StopCall 7]
   \<and> state (cell (snd (CancelMonitor (manager1\<lparr>monitors := [''////'' \<mapsto> 7]\<rparr>) heap1 WithoutMeta)) 7)
        = Stopped"
proof -
  let ?m2 = "manager1\<lparr>monitors := [''////'' \<mapsto> 7]\<rparr>"
  note f1 = StartMonitor_overwrites [where m = manager1 and h = heap1 and monitor = 8
      and old = 7 and message = "''wait''" and object = WithoutMeta]
  note f2 = StartMonitor_overwrites [where m = ?m2 and h = heap1 and monitor = 8
      and old = 7 and message = "''wait''" and object = WithoutMeta]
  have k: "GetKey heap1 8 = ''k''" "BuildMonitorKey WithoutMeta = ''////''"
    by (simp_all add: GetKey_def heap1_def BuildMonitorKey_def)
  have h1: "monitors manager1 (GetKey heap1 8) = Some 7"
    by (simp add: k manager1_def)
  have h2: "monitors ?m2 (BuildMonitorKey WithoutMeta) = Some 7"
    by (simp add: k)
  have run: "state (cell heap1 7) = Running"
    by (simp add: heap1_def)
  have ne: "(7::nat) \<noteq> 8"
    by simp
  note s = f1 [THEN conjunct1, rule_format, OF h1]
  note c = f2 [THEN conjunct2, rule_format, OF h2]
  have "cell (snd (snd (StartMonitor manager1 heap1 8 ''wait''))) 7 = cell heap1 7"
    using s [THEN conjunct2, THEN conjunct2, rule_format, OF ne] .
  with run have still: "state (cell (snd (snd (StartMonitor manager1 heap1 8 ''wait''))) 7) = Running"
    by simp
  have stopped: "state (cell (snd (CancelMonitor ?m2 heap1 WithoutMeta)) 7) = Stopped"
    using c [THEN conjunct2, THEN conjunct2, rule_format, OF run] .
  from h1 s [THEN conjunct1] s [THEN conjunct2, THEN conjunct1] still h2
    c [THEN conjunct1] c [THEN conjunct2, THEN conjunct1] stopped
  show ?thesis
    by (intro conjI)
qed

section \<open>Resetting the platform client\<close>

lemma client_Update_requests:
  "requests (snd (client_Update c obj)) = requests c @ [UpdateRequest obj]"
  by (simp add: client_Update_def Let_def split: option.split)

lemma notifySystemItems_requests:
  "length (requests c) \<le> length (requests (after (notifySystemItems c items)))"
proof (induction items arbitrary: c)
  case Nil
  show ?case
    by (simp add: after_def)
next
  case (Cons obj items)
  show ?case
  proof (cases "Annotations obj")
    case None
    then show ?thesis
      by (simp add: after_def)
  next
    case (Some a)
    let ?obj' = "obj\<lparr>Annotations := Some (a(NotificationCountKey \<mapsto>
      getNextCount (nilable_index (Annotations obj) NotificationCountKey)))\<rparr>"
    obtain err c' where u: "client_Update c ?obj' = (err, c')"
      by (cases "client_Update c ?obj'")
    with client_Update_requests [of c ?obj'] have len: "length (requests c) \<le> length (requests c')"
      by simp
    show ?thesis
    proof (cases err)
      case None
      with Some u len Cons.IH [of c'] show ?thesis
        by (simp add: Let_def)
    next
      case (Some e)
      with \<open>Annotations obj = Some a\<close> u len show ?thesis
        by (simp add: Let_def after_def)
    qed
  qed
qed

lemma after_with_client: "after (with_client m out) = m\<lparr>Manager := after out\<rparr>"
  by (cases out) (simp_all add: with_client_def after_def)

lemma NotifySystemController_requests:
  "length (requests (Manager m)) < length (requests (Manager (after (NotifySystemController m n))))"
proof (cases "list_error (Manager m) SystemGVK n")
  case None
  let ?c' = "(Manager m)\<lparr>requests := requests (Manager m) @ [ListRequest SystemGVK n]\<rparr>"
  from None have "NotifySystemController m n =
      with_client m (notifySystemItems ?c' (filter (selected SystemGVK n) (objects (Manager m))))"
    by (simp add: NotifySystemController_def client_List_def GetClient_def Let_def)
  moreover have "length (requests ?c') \<le> length (requests (after (notifySystemItems ?c'
      (filter (selected SystemGVK n) (objects (Manager m))))))"
    by (rule notifySystemItems_requests)
  ultimately show ?thesis
    by (simp add: after_with_client)
next
  case (Some e)
  then show ?thesis
    by (simp add: NotifySystemController_def client_List_def GetClient_def Let_def after_def)
qed

lemma NotifySystemController_changes: "after (NotifySystemController m n) \<noteq> m"
  using NotifySystemController_requests [of m n] by auto

lemma ResetPlatformClient_noop:
  assumes "systems m n = None \<or> (\<exists>obj. systems m n = Some obj \<and> client obj = None)"
  shows "ResetPlatformClient m n = Return None m"
  using assms by (auto simp: ResetPlatformClient_def)

lemma ResetPlatformClient_systems:
  "systems (after (ResetPlatformClient m n)) =
     (case systems m n of
        None \<Rightarrow> systems m
      | Some obj \<Rightarrow> (systems m)(n \<mapsto> obj\<lparr>client := None\<rparr>))"
proof (cases "systems m n")
  case None
  then show ?thesis
    by (simp add: ResetPlatformClient_def after_def)
next
  case (Some obj)
  show ?thesis
  proof (cases "client obj")
    case None
    then have "obj\<lparr>client := None\<rparr> = obj"
      by (cases obj) simp
    with Some None show ?thesis
      by (simp add: ResetPlatformClient_def after_def map_upd_triv)
  next
    case (Some h)
    with \<open>systems m n = Some obj\<close> show ?thesis
      by (simp add: ResetPlatformClient_def)
  qed
qed

lemma ResetPlatformClient_absent:
  "systems (after (ResetPlatformClient m n)) n = None
   \<or> (\<exists>obj. systems (after (ResetPlatformClient m n)) n = Some obj \<and> client obj = None)"
  by (simp add: ResetPlatformClient_systems split: option.split)

text \<open>
  C3: when the namespace has no entry, or its entry has no client, \<^verbatim>\<open>ResetPlatformClient\<close>
  returns no error and leaves the manager exactly as it was.  The manager holds the client
  with the record of its requests, and \<^verbatim>\<open>NotifySystemController\<close> never leaves the
  manager as it was (it starts with a list request), so the notification was not invoked.
  The second of two consecutive calls is such a call, whatever the first one did.
\<close>

theorem ResetPlatformClient_idempotent:
  "((systems m n = None \<or> (\<exists>obj. systems m n = Some obj \<and> client obj = None))
      \<longrightarrow> ResetPlatformClient m n = Return None m)
   \<and> ResetPlatformClient (after (ResetPlatformClient m n)) n
       = Return None (after (ResetPlatformClient m n))
   \<and> after (NotifySystemController m n) \<noteq> m"
  using ResetPlatformClient_noop [of m n]
    ResetPlatformClient_noop [OF ResetPlatformClient_absent, of m n]
    NotifySystemController_changes [of m n]
  by blast

theorem ResetPlatformClient_idempotent_witness:
  "systems manager1 ''ns2'' = None
   \<and> ResetPlatformClient manager1 ''ns2'' = Return None manager1
   \<and> ResetPlatformClient (after (ResetPlatformClient manager1 ''ns1'')) ''ns1''
       = Return None (after (ResetPlatformClient manager1 ''ns1''))"
proof -
  have h: "systems manager1 ''ns2'' = None"
    by (simp add: manager1_def)
  then have "systems manager1 ''ns2'' = None
      \<or> (\<exists>obj. systems manager1 ''ns2'' = Some obj \<and> client obj = None)"
    by (rule disjI1)
  from ResetPlatformClient_idempotent [where m = manager1 and n = "''ns2''", THEN conjunct1,
      rule_format, OF this]
  have a: "ResetPlatformClient manager1 ''ns2'' = Return None manager1" .
  from h a ResetPlatformClient_idempotent [where m = manager1 and n = "''ns1''",
      THEN conjunct2, THEN conjunct1]
  show ?thesis
    by (intro conjI)
qed

text \<open>The first reset of a namespace that has a client does notify the system controller.\<close>

lemma first_reset_notifies:
  "map (\<lambda>r. case r of ListRequest g ns \<Rightarrow> ''list'' | GetRequest g ns nm \<Rightarrow> ''get''
                | UpdateRequest obj \<Rightarrow> ''update'')
     (requests (Manager (after (ResetPlatformClient manager1 ''ns1'')))) = [''list'', ''update'']
   \<and> systems (after (ResetPlatformClient manager1 ''ns1'')) ''ns1''
       = Some \<lparr>client = None, ready = True, systemType = ''standard''\<rparr>
   \<and> map (\<lambda>obj. nilable_index (Annotations obj) NotificationCountKey)
        (objects (Manager (after (ResetPlatformClient manager1 ''ns1'')))) = ['''', ''8'']"
proof -
  have g: "getNextCount ''7'' = ''8''"
    by code_simp
  show ?thesis
    by (simp add: ResetPlatformClient_def manager1_def NotifySystemController_def
      client_List_def GetClient_def cluster1_def host1_def system1_def gvk_of_def SystemGVK_def
      selected_def InNamespace_def with_client_def after_def client_Update_def identity_def
      replace_def nilable_index_def map_index_def g Let_def KindHost_def KindSystem_def
      v1_Group_def v1_Version_def)
qed

section \<open>The platform client of a namespace\<close>

lemma absent_iff:
  "fst (GetPlatformClient m n) = None
     \<longleftrightarrow> (systems m n = None \<or> (\<exists>obj. systems m n = Some obj \<and> client obj = None))"
  by (cases "systems m n") (simp_all add: GetPlatformClient_def)

lemma NotifySystemDependencies_systems [simp]:
  "systems (snd (NotifySystemDependencies m n)) = systems m"
  by (simp add: NotifySystemDependencies_def notifyControllers_def split: prod.split)

lemma NotifyResource_systems [simp]:
  "systems (snd (NotifyResource m object)) = systems m"
  by (simp add: NotifyResource_def notifyController_def split: prod.split)

lemma getters_systems [simp]:
  "snd (GetPlatformClient m n) = m" "snd (GetSystemReady m n) = m" "snd (GetSystemType m n) = m"
  by (simp_all add: GetPlatformClient_def GetSystemReady_def GetSystemType_def
      split: option.split)

lemma monitors_systems [simp]:
  "systems (fst (snd (StartMonitor m h monitor message))) = systems m"
  "systems (fst (CancelMonitor m h object)) = systems m"
  by (simp_all add: StartMonitor_def CancelMonitor_def Let_def split: option.split)

lemma Reset_keeps_absent:
  assumes "fst (GetPlatformClient m n) = None"
  shows "fst (GetPlatformClient (after (ResetPlatformClient m n')) n) = None"
  using assms unfolding absent_iff ResetPlatformClient_systems
  by (cases "systems m n'") auto

lemma Build_keeps_absent:
  assumes "fst (GetPlatformClient m n) = None" and "\<not> successful_build n (OpBuildPlatformClient n' built)"
  shows "fst (GetPlatformClient (snd (BuildPlatformClient m n' built)) n) = None"
proof (cases built)
  case (Inl err)
  with assms(1) show ?thesis
    by (simp add: BuildPlatformClient_def)
next
  case (Inr handle)
  with assms(2) have "n' \<noteq> n"
    by simp
  with Inr assms(1) show ?thesis
    unfolding absent_iff by (simp add: BuildPlatformClient_def)
qed

lemma setters_keep_absent:
  assumes "fst (GetPlatformClient m n) = None"
  shows "fst (GetPlatformClient (SetSystemReady m n' v) n) = None"
    and "fst (GetPlatformClient (SetSystemType m n' t) n) = None"
  using assms unfolding absent_iff
  by (auto simp: SetSystemReady_def SetSystemType_def split: option.splits)

lemma step_keeps_absent:
  assumes "fst (GetPlatformClient m n) = None" and "\<not> successful_build n op"
  shows "fst (GetPlatformClient (fst (step (m, h) op)) n) = None"
proof (cases op)
  case (OpResetPlatformClient n')
  with assms(1) show ?thesis
    by (simp add: Reset_keeps_absent)
next
  case (OpBuildPlatformClient n' built)
  with assms show ?thesis
    by (simp add: Build_keeps_absent)
next
  case (OpSetSystemReady n' v)
  with assms(1) show ?thesis
    by (simp add: setters_keep_absent)
next
  case (OpSetSystemType n' t)
  with assms(1) show ?thesis
    by (simp add: setters_keep_absent)
next
  case (OpStartMonitor monitor message)
  with assms(1) show ?thesis
    unfolding absent_iff by simp
next
  case (OpCancelMonitor object)
  with assms(1) show ?thesis
    unfolding absent_iff by simp
next
  case (OpCluster f)
  with assms(1) show ?thesis
    unfolding absent_iff by simp
next
  case (OpNotifySystemDependencies n')
  with assms(1) show ?thesis
    unfolding absent_iff by simp
next
  case (OpNotifyResource object)
  with assms(1) show ?thesis
    unfolding absent_iff by simp
qed (use assms(1) in simp_all)

lemma run_keeps_absent:
  assumes "list_all (\<lambda>op. \<not> successful_build n op) ops"
    and "fst (GetPlatformClient (fst w) n) = None"
  shows "fst (GetPlatformClient (fst (run w ops)) n) = None"
  using assms
proof (induction ops arbitrary: w)
  case Nil
  then show ?case
    by (simp add: run_def)
next
  case (Cons op ops)
  obtain m h where w: "w = (m, h)"
    by (cases w)
  from Cons.prems w have "fst (GetPlatformClient (fst (step w op)) n) = None"
    by (simp add: step_keeps_absent)
  with Cons.IH [of "step w op"] Cons.prems(1) show ?case
    by (simp add: run_def)
qed

text \<open>
  C2: in every state that a run reaches from the new manager without a successful
  \<^verbatim>\<open>BuildPlatformClient\<close> for the namespace, \<^verbatim>\<open>GetPlatformClient\<close> returns nil; it
  returns nil in the state that \<^verbatim>\<open>ResetPlatformClient\<close> leaves (whatever the call
  returned, so also when it returned no error), and in every state reached from there
  without a successful build for the namespace.
\<close>

theorem GetPlatformClient_absent:
  "(list_all (\<lambda>op. \<not> successful_build n op) ops \<longrightarrow>
      fst (GetPlatformClient (fst (run (NewPlatformManager manager, h) ops)) n) = None)
   \<and> (list_all (\<lambda>op. \<not> successful_build n op) ops \<longrightarrow>
      fst (GetPlatformClient (fst (run (after (ResetPlatformClient m n), h) ops)) n) = None)
   \<and> (\<forall>m'. ResetPlatformClient m n = Return None m' \<longrightarrow>
      fst (GetPlatformClient m' n) = None)"
proof -
  have init: "fst (GetPlatformClient (NewPlatformManager manager) n) = None"
    by (simp add: GetPlatformClient_def NewPlatformManager_def)
  have reset: "fst (GetPlatformClient (after (ResetPlatformClient m n)) n) = None"
    unfolding absent_iff by (rule ResetPlatformClient_absent)
  have ok: "fst (GetPlatformClient m' n) = None" if "ResetPlatformClient m n = Return None m'" for m'
    using reset that by (simp add: after_def)
  from init reset ok show ?thesis
    by (simp add: run_keeps_absent)
qed

lemma Build_makes_present:
  "fst (GetPlatformClient (snd (BuildPlatformClient m n (Inr handle))) n) = Some handle"
  by (simp add: BuildPlatformClient_def GetPlatformClient_def split: option.split)

theorem GetPlatformClient_absent_witness:
  "list_all (\<lambda>op. \<not> successful_build ''ns1'' op) ops1
   \<and> fst (GetPlatformClient (fst (run (NewPlatformManager cluster1, heap1) ops1)) ''ns1'') = None
   \<and> fst (GetPlatformClient manager1 ''ns1'') = Some 5
   \<and> fst (GetPlatformClient
            (fst (run (after (ResetPlatformClient manager1 ''ns1''), heap1) ops1)) ''ns1'') = None"
proof -
  have h: "list_all (\<lambda>op. \<not> successful_build ''ns1'' op) ops1"
    by (simp add: ops1_def)
  have p: "fst (GetPlatformClient manager1 ''ns1'') = Some 5"
    by (simp add: GetPlatformClient_def manager1_def)
  note f = GetPlatformClient_absent [where n = "''ns1''" and ops = ops1 and h = heap1
      and manager = cluster1 and m = manager1]
  from h f [THEN conjunct1, rule_format, OF h] p
    f [THEN conjunct2, THEN conjunct1, rule_format, OF h]
  show ?thesis
    by (intro conjI)
qed

section \<open>The notification cascade\<close>

lemma identity_bump [simp]: "identity (bump obj) = identity obj"
  by (simp add: identity_def bump_def)

lemma TypeMeta_bump [simp]: "TypeMeta (bump obj) = TypeMeta obj" "Namespace (bump obj) = Namespace obj"
  "Name (bump obj) = Name obj" "GetKind (bump obj) = GetKind obj"
  by (simp_all add: bump_def GetKind_def)

lemma identity_replace: "identity (replace (bump obj) x) = identity x"
  by (simp add: replace_def)

lemma updated_append [simp]: "updated (rs @ rs') = updated rs @ updated rs'"
  by (induction rs rule: updated.induct) simp_all

lemma listed_append [simp]: "listed (rs @ rs') = listed rs @ listed rs'"
  by (induction rs rule: listed.induct) simp_all

lemma replace_in_store:
  assumes "distinct (map identity objs)" and "obj \<in> set objs"
  shows "map (replace (bump obj)) objs = map (\<lambda>x. if x = obj then bump obj else x) objs"
proof (rule map_cong [OF refl])
  fix x assume "x \<in> set objs"
  with assms have "identity x = identity obj \<longleftrightarrow> x = obj"
    by (auto simp: distinct_map inj_on_def)
  then show "replace (bump obj) x = (if x = obj then bump obj else x)"
    by (simp add: replace_def)
qed

lemma client_Update_ok:
  assumes "update_error c (bump obj) = None" and "wf_store c" and "obj \<in> set (objects c)"
  shows "client_Update c (bump obj) =
     (None, c\<lparr>objects := map (\<lambda>x. if x = obj then bump obj else x) (objects c),
              requests := requests c @ [UpdateRequest (bump obj)]\<rparr>)"
proof -
  from assms(3) have "list_ex (\<lambda>x. identity x = identity (bump obj)) (objects c)"
    by (auto simp: list_ex_iff)
  with assms(1) replace_in_store [of "objects c" obj] assms(2,3) show ?thesis
    by (simp add: client_Update_def Let_def wf_store_def)
qed

lemma client_Update_rejected:
  assumes "update_error c obj = Some err"
  shows "client_Update c obj = (Some err, c\<lparr>requests := requests c @ [UpdateRequest obj]\<rparr>)"
  using assms by (simp add: client_Update_def Let_def)

lemma same_identity_in_store:
  assumes "wf_store c" and "x \<in> set (objects c)" and "y \<in> set (objects c)"
    and "identity x = identity y"
  shows "x = y"
  using assms by (auto simp: wf_store_def distinct_map inj_on_def)

text \<open>The store after the update of one of its objects.\<close>

lemma bumped_store:
  assumes wf: "wf_store c" and obj: "obj \<in> set (objects c)"
    and S: "S \<subseteq> set (objects c)" and notin: "obj \<notin> S"
  defines "c1 \<equiv> c\<lparr>objects := map (\<lambda>x. if x = obj then bump obj else x) (objects c),
                     requests := requests c @ [UpdateRequest (bump obj)]\<rparr>"
  shows "wf_store c1" and "S \<subseteq> set (objects c1)"
    and "map (\<lambda>x. if x \<in> S then bump x else x) (objects c1)
         = map (\<lambda>x. if x \<in> insert obj S then bump x else x) (objects c)"
proof -
  have "map identity (objects c1) = map identity (objects c)"
    by (simp add: c1_def comp_def if_distrib [of identity] cong: if_cong)
  with wf show "wf_store c1"
    by (simp add: wf_store_def)
  show "S \<subseteq> set (objects c1)"
  proof
    fix x assume "x \<in> S"
    with S notin have "x \<in> set (objects c)" "x \<noteq> obj"
      by auto
    then have "x \<in> (\<lambda>x. if x = obj then bump obj else x) ` set (objects c)"
      by (intro image_eqI [of _ _ x]) simp_all
    then show "x \<in> set (objects c1)"
      by (simp add: c1_def)
  qed
  have "bump obj \<notin> S"
  proof
    assume "bump obj \<in> S"
    with S have "bump obj \<in> set (objects c)"
      by auto
    with wf obj have "bump obj = obj"
      by (intro same_identity_in_store [of c]) simp_all
    with \<open>bump obj \<in> S\<close> notin show False
      by simp
  qed
  then show "map (\<lambda>x. if x \<in> S then bump x else x) (objects c1)
         = map (\<lambda>x. if x \<in> insert obj S then bump x else x) (objects c)"
    using notin by (auto simp: c1_def)
qed

lemma notifyItems_all:
  assumes "wf_store c" and "set items \<subseteq> set (objects c)" and "distinct items"
    and "\<forall>x\<in>set items. notifiable (GetKind x)"
    and "\<forall>x\<in>set items. update_error c (bump x) = None"
  shows "notifyItems c items =
     (None, c\<lparr>objects := map (\<lambda>x. if x \<in> set items then bump x else x) (objects c),
              requests := requests c @ map UpdateRequest (map bump items)\<rparr>)"
  using assms
proof (induction items arbitrary: c)
  case Nil
  then show ?case
    by simp
next
  case (Cons obj items)
  let ?c1 = "c\<lparr>objects := map (\<lambda>x. if x = obj then bump obj else x) (objects c),
                requests := requests c @ [UpdateRequest (bump obj)]\<rparr>"
  from Cons.prems have obj: "obj \<in> set (objects c)" and S: "set items \<subseteq> set (objects c)"
    and notin: "obj \<notin> set items"
    by auto
  note b = bumped_store [OF Cons.prems(1) obj S notin]
  from Cons.prems obj have u: "client_Update c (bump obj) = (None, ?c1)"
    by (intro client_Update_ok) auto
  have "notifyItems ?c1 items =
     (None, ?c1\<lparr>objects := map (\<lambda>x. if x \<in> set items then bump x else x) (objects ?c1),
              requests := requests ?c1 @ map UpdateRequest (map bump items)\<rparr>)"
    using Cons.prems b(1,2) by (intro Cons.IH) auto
  with u Cons.prems(4) b(3) show ?case
    by simp
qed

lemma notifyItems_rejected:
  assumes "wf_store c" and "set (pre @ obj # post) \<subseteq> set (objects c)"
    and "distinct (pre @ obj # post)"
    and "\<forall>x\<in>set (pre @ obj # post). notifiable (GetKind x)"
    and "\<forall>x\<in>set pre. update_error c (bump x) = None"
    and "update_error c (bump obj) = Some err"
  shows "notifyItems c (pre @ obj # post) =
     (Some (Wrap err (''failed to notify '' @ GetKind obj @ '' controller'')),
      c\<lparr>objects := map (\<lambda>x. if x \<in> set pre then bump x else x) (objects c),
        requests := requests c @ map UpdateRequest (map bump (pre @ [obj]))\<rparr>)"
  using assms
proof (induction pre arbitrary: c)
  case Nil
  then show ?case
    by (simp add: client_Update_rejected)
next
  case (Cons p pre)
  let ?c1 = "c\<lparr>objects := map (\<lambda>x. if x = p then bump p else x) (objects c),
                requests := requests c @ [UpdateRequest (bump p)]\<rparr>"
  from Cons.prems have p: "p \<in> set (objects c)"
    and S: "set (pre @ obj # post) \<subseteq> set (objects c)"
    and notin: "p \<notin> set (pre @ obj # post)"
    by auto
  note b = bumped_store [OF Cons.prems(1) p S notin]
  from S notin have S': "set pre \<subseteq> set (objects c)" "p \<notin> set pre"
    by auto
  note b' = bumped_store [OF Cons.prems(1) p S']
  from Cons.prems p have u: "client_Update c (bump p) = (None, ?c1)"
    by (intro client_Update_ok) auto
  have "notifyItems ?c1 (pre @ obj # post) =
     (Some (Wrap err (''failed to notify '' @ GetKind obj @ '' controller'')),
      ?c1\<lparr>objects := map (\<lambda>x. if x \<in> set pre then bump x else x) (objects ?c1),
        requests := requests ?c1 @ map UpdateRequest (map bump (pre @ [obj]))\<rparr>)"
    using Cons.prems b(1,2) by (intro Cons.IH) auto
  with u Cons.prems(4) b'(3) show ?case
    by simp
qed

lemma client_List_ok:
  assumes "list_error c gvk n = None"
  shows "client_List c gvk n =
     (Inr (filter (selected gvk n) (objects c)), c\<lparr>requests := requests c @ [ListRequest gvk n]\<rparr>)"
  using assms by (simp add: client_List_def Let_def)

lemma selected_bump [simp]: "selected gvk n (bump x) = selected gvk n x"
  by (simp add: selected_def InNamespace_def)

lemma wf_store_distinct: "wf_store c \<Longrightarrow> distinct (objects c)"
  by (simp add: wf_store_def distinct_map)

lemma set_dependents:
  "set (dependents c n gvks) = {x \<in> set (objects c). \<exists>gvk\<in>set gvks. selected gvk n x}"
  by (auto simp: dependents_def)

lemma dependents_Cons:
  "dependents c n (gvk # gvks) = filter (selected gvk n) (objects c) @ dependents c n gvks"
  by (simp add: dependents_def)

text \<open>Bumping the objects of one kind leaves the lists of the other kinds as they were.\<close>

lemma dependents_after_kind:
  assumes "gvk \<notin> set gvks"
  shows "concat (map (\<lambda>g. filter (selected g n)
            (map (\<lambda>x. if selected gvk n x then bump x else x) objs)) gvks)
         = concat (map (\<lambda>g. filter (selected g n) objs) gvks)"
proof -
  have "filter (selected g n) (map (\<lambda>x. if selected gvk n x then bump x else x) objs)
        = filter (selected g n) objs" if "g \<in> set gvks" for g
  proof -
    from that assms have "g \<noteq> gvk"
      by auto
    then have "selected g n x \<Longrightarrow> \<not> selected gvk n x" for x
      by (auto simp: selected_def)
    then show ?thesis
      by (induction objs) auto
  qed
  then show ?thesis
    by (simp cong: map_cong)
qed

lemma bump_two_sets:
  assumes "\<forall>x\<in>A. bump x \<notin> B"
  shows "map (\<lambda>x. if x \<in> B then bump x else x) (map (\<lambda>x. if x \<in> A then bump x else x) objs)
         = map (\<lambda>x. if x \<in> A \<union> B then bump x else x) objs"
  using assms by auto

text \<open>The state after the list call and the inner loop for one kind, all updates accepted.\<close>

lemma one_kind:
  assumes wf: "wf_store c" and nt: "notifiable (Kind gvk)"
    and ok: "\<forall>x\<in>set (filter (selected gvk n) (objects c)). update_error c (bump x) = None"
  defines "cl \<equiv> c\<lparr>requests := requests c @ [ListRequest gvk n]\<rparr>"
  defines "c2 \<equiv> c\<lparr>objects := map (\<lambda>x. if selected gvk n x then bump x else x) (objects c),
                     requests := requests c @ ListRequest gvk n #
                       map UpdateRequest (map bump (filter (selected gvk n) (objects c)))\<rparr>"
  shows "notifyItems cl (filter (selected gvk n) (objects c)) = (None, c2)"
    and "wf_store c2"
proof -
  let ?items = "filter (selected gvk n) (objects c)"
  have wfl: "wf_store cl"
    using wf by (simp add: cl_def wf_store_def)
  have "\<forall>x\<in>set ?items. notifiable (GetKind x)"
    using nt by (auto simp: selected_def GetKind_def)
  moreover have "distinct ?items"
    using wf_store_distinct [OF wf] by simp
  moreover have "set ?items \<subseteq> set (objects cl)"
    by (auto simp: cl_def)
  moreover have "\<forall>x\<in>set ?items. update_error cl (bump x) = None"
    using ok by (simp add: cl_def)
  ultimately have "notifyItems cl ?items =
     (None, cl\<lparr>objects := map (\<lambda>x. if x \<in> set ?items then bump x else x) (objects cl),
              requests := requests cl @ map UpdateRequest (map bump ?items)\<rparr>)"
    using wfl by (intro notifyItems_all) auto
  moreover have "map (\<lambda>x. if x \<in> set ?items then bump x else x) (objects c)
       = map (\<lambda>x. if selected gvk n x then bump x else x) (objects c)"
    by (rule map_cong) auto
  ultimately show "notifyItems cl ?items = (None, c2)"
    by (simp add: cl_def c2_def)
  have "map identity (objects c2) = map identity (objects c)"
    by (simp add: c2_def comp_def if_distrib [of identity] cong: if_cong)
  with wf show "wf_store c2"
    by (simp add: wf_store_def)
qed

lemma notifyControllersClient_all:
  assumes "wf_store c" and "distinct gvks" and "\<forall>gvk\<in>set gvks. notifiable (Kind gvk)"
    and "\<forall>gvk\<in>set gvks. list_error c gvk n = None"
    and "\<forall>x\<in>set (dependents c n gvks). update_error c (bump x) = None"
  shows "notifyControllersClient c n gvks =
     (None, c\<lparr>objects := map (\<lambda>x. if x \<in> set (dependents c n gvks) then bump x else x) (objects c),
              requests := requests c @ concat (map (\<lambda>gvk. ListRequest gvk n #
                 map UpdateRequest (map bump (filter (selected gvk n) (objects c)))) gvks)\<rparr>)"
  using assms
proof (induction gvks arbitrary: c)
  case Nil
  then show ?case
    by (simp add: dependents_def)
next
  case (Cons gvk gvks)
  let ?items = "filter (selected gvk n) (objects c)"
  let ?cl = "c\<lparr>requests := requests c @ [ListRequest gvk n]\<rparr>"
  let ?c2 = "c\<lparr>objects := map (\<lambda>x. if selected gvk n x then bump x else x) (objects c),
                requests := requests c @ ListRequest gvk n # map UpdateRequest (map bump ?items)\<rparr>"
  from Cons.prems have l: "client_List c gvk n = (Inr ?items, ?cl)"
    by (intro client_List_ok) simp
  from Cons.prems have inner: "notifyItems ?cl ?items = (None, ?c2)" and wf2: "wf_store ?c2"
    by (intro one_kind; simp add: dependents_Cons)+
  from Cons.prems have notin: "gvk \<notin> set gvks"
    by simp
  have dep: "dependents ?c2 n gvks = dependents c n gvks"
    using dependents_after_kind [OF notin] by (simp add: dependents_def)
  have filt: "filter (selected g n) (objects ?c2) = filter (selected g n) (objects c)"
    if "g \<in> set gvks" for g
    using dependents_after_kind [of gvk "[g]" n "objects c"] that notin by auto
  have ih: "notifyControllersClient ?c2 n gvks =
     (None, ?c2\<lparr>objects := map (\<lambda>x. if x \<in> set (dependents ?c2 n gvks) then bump x else x)
                  (objects ?c2),
              requests := requests ?c2 @ concat (map (\<lambda>gvk. ListRequest gvk n #
                 map UpdateRequest (map bump (filter (selected gvk n) (objects ?c2)))) gvks)\<rparr>)"
  proof (rule Cons.IH [OF wf2])
    from Cons.prems show "distinct gvks" "\<forall>gvk\<in>set gvks. notifiable (Kind gvk)"
      "\<forall>g\<in>set gvks. list_error ?c2 g n = None"
      by simp_all
    from Cons.prems have "\<forall>x\<in>set (dependents c n gvks). update_error c (bump x) = None"
      by (simp add: dependents_Cons)
    then show "\<forall>x\<in>set (dependents ?c2 n gvks). update_error ?c2 (bump x) = None"
      unfolding dep by simp
  qed
  have disj: "\<forall>x\<in>set ?items. bump x \<notin> set (dependents c n gvks)"
    using notin by (auto simp: set_dependents selected_def)
  have o2: "objects ?c2 = map (\<lambda>x. if x \<in> set ?items then bump x else x) (objects c)"
    by auto
  have X: "map (\<lambda>x. if x \<in> set (dependents ?c2 n gvks) then bump x else x) (objects ?c2)
      = map (\<lambda>x. if x \<in> set (dependents c n (gvk # gvks)) then bump x else x) (objects c)"
    unfolding dep o2 by (simp only: bump_two_sets [OF disj] dependents_Cons set_append)
  have "concat (map (\<lambda>g. ListRequest g n #
        map UpdateRequest (map bump (filter (selected g n) (objects ?c2)))) gvks)
      = concat (map (\<lambda>g. ListRequest g n #
        map UpdateRequest (map bump (filter (selected g n) (objects c)))) gvks)"
    using filt by (simp cong: map_cong)
  then have Y: "requests ?c2 @ concat (map (\<lambda>g. ListRequest g n #
        map UpdateRequest (map bump (filter (selected g n) (objects ?c2)))) gvks)
      = requests c @ concat (map (\<lambda>g. ListRequest g n #
        map UpdateRequest (map bump (filter (selected g n) (objects c)))) (gvk # gvks))"
    by simp
  have res: "notifyControllersClient c n (gvk # gvks) = notifyControllersClient ?c2 n gvks"
    using l inner by simp
  have over: "?c2\<lparr>objects := os, requests := rs\<rparr> = c\<lparr>objects := os, requests := rs\<rparr>" for os rs
    by simp
  show ?case
    unfolding res ih X Y over ..
qed

lemma updated_UpdateRequests [simp]: "updated (map UpdateRequest xs) = xs"
  by (induction xs) simp_all

lemma listed_UpdateRequests [simp]: "listed (map UpdateRequest xs) = []"
  by (induction xs) simp_all

lemma updated_UpdateRequests_comp [simp]: "updated (map (UpdateRequest \<circ> f) xs) = map f xs"
  by (induction xs) simp_all

lemma listed_UpdateRequests_comp [simp]: "listed (map (UpdateRequest \<circ> f) xs) = []"
  by (induction xs) simp_all

lemma notifyControllersClient_rejected:
  assumes "wf_store c" and "distinct gvks" and "\<forall>gvk\<in>set gvks. notifiable (Kind gvk)"
    and "\<forall>gvk\<in>set gvks. list_error c gvk n = None"
    and "dependents c n gvks = pre @ obj # post"
    and "\<forall>x\<in>set pre. update_error c (bump x) = None"
    and "update_error c (bump obj) = Some err"
  shows "fst (notifyControllersClient c n gvks)
           = Some (Wrap err (''failed to notify '' @ GetKind obj @ '' controller''))
     \<and> objects (snd (notifyControllersClient c n gvks))
           = map (\<lambda>x. if x \<in> set pre then bump x else x) (objects c)
     \<and> updated (requests (snd (notifyControllersClient c n gvks)))
           = updated (requests c) @ map bump (pre @ [obj])"
  using assms
proof (induction gvks arbitrary: c pre)
  case Nil
  then show ?case
    by (simp add: dependents_def)
next
  case (Cons gvk gvks)
  let ?items = "filter (selected gvk n) (objects c)"
  let ?cl = "c\<lparr>requests := requests c @ [ListRequest gvk n]\<rparr>"
  from Cons.prems have l: "client_List c gvk n = (Inr ?items, ?cl)"
    by (intro client_List_ok) simp
  from Cons.prems have notin: "gvk \<notin> set gvks"
    by simp
  from Cons.prems(5) have eq: "?items @ dependents c n gvks = pre @ obj # post"
    by (simp add: dependents_Cons)
  then consider (inside) rest where "?items = pre @ obj # rest"
    | (later) us where "pre = ?items @ us" "dependents c n gvks = us @ obj # post"
  proof -
    assume a: "\<And>rest. ?items = pre @ obj # rest \<Longrightarrow> thesis"
      and b: "\<And>us. pre = ?items @ us \<Longrightarrow> dependents c n gvks = us @ obj # post \<Longrightarrow> thesis"
    from eq obtain us where
      "?items = pre @ us \<and> us @ dependents c n gvks = obj # post
       \<or> ?items @ us = pre \<and> dependents c n gvks = us @ obj # post"
      by (auto simp: append_eq_append_conv2)
    then show thesis
    proof
      assume h: "?items = pre @ us \<and> us @ dependents c n gvks = obj # post"
      show thesis
      proof (cases us)
        case Nil
        with h show thesis
          by (intro b [of "[]"]) simp_all
      next
        case (Cons u us')
        with h show thesis
          by (intro a [of us']) simp
      qed
    next
      assume "?items @ us = pre \<and> dependents c n gvks = us @ obj # post"
      then show thesis
        by (intro b [of us]) simp_all
    qed
  qed
  then show ?case
  proof cases
    case inside
    have wfl: "wf_store ?cl"
      using Cons.prems(1) by (simp add: wf_store_def)
    have sub: "set (pre @ obj # rest) \<subseteq> set (objects ?cl)"
      unfolding inside [symmetric] by auto
    have dist: "distinct (pre @ obj # rest)"
      unfolding inside [symmetric] using wf_store_distinct [OF Cons.prems(1)] by simp
    have nt: "\<forall>x\<in>set (pre @ obj # rest). notifiable (GetKind x)"
      unfolding inside [symmetric] using Cons.prems(3) by (auto simp: selected_def GetKind_def)
    have ok: "\<forall>x\<in>set pre. update_error ?cl (bump x) = None"
      using Cons.prems(6) by simp
    have bad: "update_error ?cl (bump obj) = Some err"
      using Cons.prems(7) by simp
    note r = notifyItems_rejected [OF wfl sub dist nt ok bad]
    have "notifyControllersClient c n (gvk # gvks) =
      (Some (Wrap err (''failed to notify '' @ GetKind obj @ '' controller'')),
       ?cl\<lparr>objects := map (\<lambda>x. if x \<in> set pre then bump x else x) (objects ?cl),
           requests := requests ?cl @ map UpdateRequest (map bump (pre @ [obj]))\<rparr>)"
      using l r by (simp add: inside)
    then show ?thesis
      by simp
  next
    case later
    let ?c2 = "c\<lparr>objects := map (\<lambda>x. if selected gvk n x then bump x else x) (objects c),
                  requests := requests c @ ListRequest gvk n # map UpdateRequest (map bump ?items)\<rparr>"
    have okk: "\<forall>x\<in>set ?items. update_error c (bump x) = None"
      using Cons.prems(6) later(1) by simp
    from Cons.prems(1,3) okk have inner: "notifyItems ?cl ?items = (None, ?c2)"
      and wf2: "wf_store ?c2"
      by (intro one_kind; simp)+
    have dep: "dependents ?c2 n gvks = dependents c n gvks"
      using dependents_after_kind [OF notin] by (simp add: dependents_def)
    have res: "notifyControllersClient c n (gvk # gvks) = notifyControllersClient ?c2 n gvks"
      using l inner by simp
    have ih: "fst (notifyControllersClient ?c2 n gvks)
           = Some (Wrap err (''failed to notify '' @ GetKind obj @ '' controller''))
     \<and> objects (snd (notifyControllersClient ?c2 n gvks))
           = map (\<lambda>x. if x \<in> set us then bump x else x) (objects ?c2)
     \<and> updated (requests (snd (notifyControllersClient ?c2 n gvks)))
           = updated (requests ?c2) @ map bump (us @ [obj])"
    proof (rule Cons.IH [OF wf2])
      from Cons.prems show "distinct gvks" "\<forall>gvk\<in>set gvks. notifiable (Kind gvk)"
        "\<forall>g\<in>set gvks. list_error ?c2 g n = None"
        by simp_all
      show "dependents ?c2 n gvks = us @ obj # post"
        unfolding dep by (rule later(2))
      from Cons.prems(6) later(1) show "\<forall>x\<in>set us. update_error ?c2 (bump x) = None"
        by simp
      from Cons.prems(7) show "update_error ?c2 (bump obj) = Some err"
        by simp
    qed
    have "set us \<subseteq> set (dependents c n gvks)"
      using later(2) by auto
    then have disj: "\<forall>x\<in>set ?items. bump x \<notin> set us"
      using notin by (auto simp: set_dependents selected_def)
    have o2: "objects ?c2 = map (\<lambda>x. if x \<in> set ?items then bump x else x) (objects c)"
      by auto
    have X: "map (\<lambda>x. if x \<in> set us then bump x else x) (objects ?c2)
        = map (\<lambda>x. if x \<in> set pre then bump x else x) (objects c)"
      unfolding o2 later(1) by (simp only: bump_two_sets [OF disj] set_append)
    have Y: "updated (requests ?c2) @ map bump (us @ [obj])
        = updated (requests c) @ map bump (pre @ [obj])"
      by (simp add: later(1))
    show ?thesis
      unfolding res using ih unfolding X Y .
  qed
qed

section \<open>The system cascade\<close>

lemma systemDependencies_distinct: "distinct systemDependencies"
  by (simp add: systemDependencies_def KindHost_def KindPlatformNetwork_def KindDataNetwork_def
      KindPTPInstance_def KindPTPInterface_def)

lemma systemDependencies_notifiable: "\<forall>gvk\<in>set systemDependencies. notifiable (Kind gvk)"
  by (simp add: systemDependencies_def notifiable_def)

lemma HostProfile_not_dependent: "gvk_of KindHostProfile \<notin> set systemDependencies"
  by (simp add: systemDependencies_def gvk_of_def KindHostProfile_def KindHost_def
      KindPlatformNetwork_def KindDataNetwork_def KindPTPInstance_def KindPTPInterface_def)

lemma systemDependencies_kinds:
  "set systemDependencies = gvk_of ` {KindHost, KindPlatformNetwork, KindDataNetwork,
     KindPTPInstance, KindPTPInterface}"
  by (auto simp: systemDependencies_def gvk_of_def)

lemma listed_cascade:
  "listed (concat (map (\<lambda>gvk. ListRequest gvk n # map UpdateRequest (f gvk)) gvks))
     = map (\<lambda>gvk. (gvk, n)) gvks"
  by (induction gvks) simp_all

lemma updated_cascade:
  "updated (concat (map (\<lambda>gvk. ListRequest gvk n # map UpdateRequest (f gvk)) gvks))
     = concat (map f gvks)"
  by (induction gvks) simp_all

lemma in_dependents:
  assumes "n \<noteq> []"
  shows "x \<in> set (dependents c n gvks)
     \<longleftrightarrow> x \<in> set (objects c) \<and> TypeMeta x \<in> set gvks \<and> Namespace x = n"
  using assms by (auto simp: set_dependents selected_def InNamespace_def)

lemma bump_counter:
  "nilable_index (Annotations (bump x)) NotificationCountKey
     = getNextCount (nilable_index (Annotations x) NotificationCountKey)"
  "k \<noteq> NotificationCountKey \<Longrightarrow>
     nilable_index (Annotations (bump x)) k = nilable_index (Annotations x) k"
  by (simp_all add: bump_def bumpAnnotations_def nilable_index_def map_index_def Let_def
      split: option.split)

text \<open>
  C5: let \<open>n\<close> be a namespace (a non-empty name; the empty name is the client's selector
  for all namespaces), and let the store accept the five list calls and the update of every
  object of a dependency kind in \<open>n\<close>.  Then \<^verbatim>\<open>NotifySystemDependencies\<close> returns no
  error; every object of namespace \<open>n\<close> whose type is one of \<open>systemDependencies\<close>
  (host, platform-network, data-network, ptp-instance, ptp-interface) is bumped, which puts
  \<^verbatim>\<open>getNextCount\<close> of its old counter under \<^verbatim>\<open>deployment-manager/notifications\<close>;
  every other object of the store, so every object of another namespace, is as before.
  The list calls made are those of the five kinds (none for host-profile), and the objects
  written are the bumped dependents, all of namespace \<open>n\<close>.
\<close>

theorem NotifySystemDependencies_bumps:
  assumes ns: "n \<noteq> []" and wf: "wf_store (Manager m)"
    and lists: "\<forall>gvk\<in>set systemDependencies. list_error (Manager m) gvk n = None"
    and updates: "\<forall>x\<in>set (objects (Manager m)).
       TypeMeta x \<in> set systemDependencies \<and> Namespace x = n
         \<longrightarrow> update_error (Manager m) (bump x) = None"
  shows "fst (NotifySystemDependencies m n) = None
     \<and> objects (Manager (snd (NotifySystemDependencies m n)))
         = map (\<lambda>x. if TypeMeta x \<in> set systemDependencies \<and> Namespace x = n
                     then bump x else x) (objects (Manager m))
     \<and> (\<forall>x. nilable_index (Annotations (bump x)) NotificationCountKey
              = getNextCount (nilable_index (Annotations x) NotificationCountKey))
     \<and> listed (requests (Manager (snd (NotifySystemDependencies m n))))
         = listed (requests (Manager m)) @ map (\<lambda>gvk. (gvk, n)) systemDependencies
     \<and> (gvk_of KindHostProfile, n) \<notin> set (map (\<lambda>gvk. (gvk, n)) systemDependencies)
     \<and> updated (requests (Manager (snd (NotifySystemDependencies m n))))
         = updated (requests (Manager m)) @ map bump (dependents (Manager m) n systemDependencies)
     \<and> (\<forall>x\<in>set (dependents (Manager m) n systemDependencies). Namespace x = n)
     \<and> systems (snd (NotifySystemDependencies m n)) = systems m
     \<and> monitors (snd (NotifySystemDependencies m n)) = monitors m"
proof -
  let ?c = "Manager m"
  let ?D = "dependents ?c n systemDependencies"
  let ?c' = "?c\<lparr>objects := map (\<lambda>x. if x \<in> set ?D then bump x else x) (objects ?c),
      requests := requests ?c @ concat (map (\<lambda>gvk. ListRequest gvk n #
          map UpdateRequest (map bump (filter (selected gvk n) (objects ?c)))) systemDependencies)\<rparr>"
  have ok: "\<forall>x\<in>set ?D. update_error ?c (bump x) = None"
    using updates by (simp add: in_dependents [OF ns])
  have run: "notifyControllersClient ?c n systemDependencies = (None, ?c')"
    by (rule notifyControllersClient_all [OF wf systemDependencies_distinct
          systemDependencies_notifiable lists ok])
  then have res: "NotifySystemDependencies m n = (None, m\<lparr>Manager := ?c'\<rparr>)"
    by (simp add: NotifySystemDependencies_def notifyControllers_def GetClient_def)
  have objs: "map (\<lambda>x. if x \<in> set ?D then bump x else x) (objects ?c)
      = map (\<lambda>x. if TypeMeta x \<in> set systemDependencies \<and> Namespace x = n
                   then bump x else x) (objects ?c)"
    by (rule map_cong) (simp_all add: in_dependents [OF ns])
  have upd: "concat (map (\<lambda>gvk. map bump (filter (selected gvk n) (objects ?c))) systemDependencies)
      = map bump ?D"
    by (simp add: dependents_def map_concat comp_def)
  have a: "fst (NotifySystemDependencies m n) = None"
    by (simp add: res)
  have b: "objects (Manager (snd (NotifySystemDependencies m n)))
         = map (\<lambda>x. if TypeMeta x \<in> set systemDependencies \<and> Namespace x = n
                     then bump x else x) (objects ?c)"
    unfolding res using objs by simp
  have c: "listed (requests (Manager (snd (NotifySystemDependencies m n))))
         = listed (requests ?c) @ map (\<lambda>gvk. (gvk, n)) systemDependencies"
    unfolding res
    using listed_cascade [of n "\<lambda>gvk. map bump (filter (selected gvk n) (objects ?c))"
        systemDependencies]
    by simp
  have d: "(gvk_of KindHostProfile, n) \<notin> set (map (\<lambda>gvk. (gvk, n)) systemDependencies)"
    using HostProfile_not_dependent by auto
  have e: "updated (requests (Manager (snd (NotifySystemDependencies m n))))
         = updated (requests ?c) @ map bump ?D"
    unfolding res
    using updated_cascade [of n "\<lambda>gvk. map bump (filter (selected gvk n) (objects ?c))"
        systemDependencies] upd
    by simp
  have f: "\<forall>x\<in>set ?D. Namespace x = n"
    by (simp add: in_dependents [OF ns])
  have g: "systems (snd (NotifySystemDependencies m n)) = systems m"
    "monitors (snd (NotifySystemDependencies m n)) = monitors m"
    by (simp_all add: res)
  from a b c d e f g bump_counter(1) show ?thesis
    by (intro conjI allI)
qed

theorem NotifySystemDependencies_bumps_witness:
  "''ns1'' \<noteq> []
   \<and> wf_store (Manager (NewPlatformManager cluster3))
   \<and> objects cluster3 = [host1, host2, profile1, system1]
   \<and> fst (NotifySystemDependencies (NewPlatformManager cluster3) ''ns1'') = None
   \<and> objects (Manager (snd (NotifySystemDependencies (NewPlatformManager cluster3) ''ns1'')))
       = [bump host1, host2, profile1, system1]
   \<and> nilable_index (Annotations host1) NotificationCountKey = []
   \<and> nilable_index (Annotations (bump host1)) NotificationCountKey = ''1''
   \<and> nilable_index (Annotations (bump (bump host1))) NotificationCountKey = ''2''"
proof -
  let ?m = "NewPlatformManager cluster3"
  have c: "Manager ?m = cluster3"
    by (simp add: NewPlatformManager_def)
  have objs: "objects cluster3 = [host1, host2, profile1, system1]"
    by (simp add: cluster3_def)
  have ns: "''ns1'' \<noteq> []"
    by simp
  have wf: "wf_store (Manager ?m)"
    unfolding c
    by (simp add: wf_store_def cluster3_def identity_def host1_def host2_def profile1_def
        system1_def gvk_of_def KindHost_def KindHostProfile_def KindSystem_def)
  have lists: "\<forall>gvk\<in>set systemDependencies. list_error (Manager ?m) gvk ''ns1'' = None"
    unfolding c by (simp add: cluster3_def)
  have updates: "\<forall>x\<in>set (objects (Manager ?m)).
       TypeMeta x \<in> set systemDependencies \<and> Namespace x = ''ns1''
         \<longrightarrow> update_error (Manager ?m) (bump x) = None"
    unfolding c by (simp add: cluster3_def)
  note t = NotifySystemDependencies_bumps [OF ns wf lists updates]
  have h1: "TypeMeta host1 \<in> set systemDependencies \<and> Namespace host1 = ''ns1''"
    by (simp add: host1_def systemDependencies_def gvk_of_def)
  have h2: "\<not> (TypeMeta host2 \<in> set systemDependencies \<and> Namespace host2 = ''ns1'')"
    by (simp add: host2_def)
  have h3: "\<not> (TypeMeta profile1 \<in> set systemDependencies \<and> Namespace profile1 = ''ns1'')"
    using HostProfile_not_dependent by (simp add: profile1_def)
  have h4: "\<not> (TypeMeta system1 \<in> set systemDependencies \<and> Namespace system1 = ''ns1'')"
    by (simp add: system1_def systemDependencies_def gvk_of_def KindSystem_def KindHost_def
        KindPlatformNetwork_def KindDataNetwork_def KindPTPInstance_def KindPTPInterface_def)
  have after: "objects (Manager (snd (NotifySystemDependencies ?m ''ns1'')))
       = [bump host1, host2, profile1, system1]"
    unfolding t [THEN conjunct2, THEN conjunct1] c objs
    by (simp only: list.map if_P [OF h1] if_not_P [OF h2] if_not_P [OF h3] if_not_P [OF h4])
  have k0: "nilable_index (Annotations host1) NotificationCountKey = []"
    by (simp add: host1_def nilable_index_def)
  have one: "getNextCount [] = ''1''" and two: "getNextCount ''1'' = ''2''"
    by code_simp+
  have k1: "nilable_index (Annotations (bump host1)) NotificationCountKey = ''1''"
    using t [THEN conjunct2, THEN conjunct2, THEN conjunct1, rule_format, of host1]
    by (simp add: k0 one)
  have k2: "nilable_index (Annotations (bump (bump host1))) NotificationCountKey = ''2''"
    using t [THEN conjunct2, THEN conjunct2, THEN conjunct1, rule_format, of "bump host1"]
    by (simp add: k1 two)
  from ns wf objs t [THEN conjunct1] after k0 k1 k2 show ?thesis
    by (intro conjI)
qed

text \<open>
  C6: let the list calls be accepted, let the cascade visit the objects \<open>pre\<close>, then
  \<open>obj\<close>, then \<open>post\<close>, and let the update of \<open>obj\<close> be the first that the store
  rejects, with error \<open>err\<close>.  Then \<^verbatim>\<open>NotifySystemDependencies\<close> returns \<open>err\<close> wrapped
  with the context "failed to notify KIND controller"; the objects written are those of
  \<open>pre\<close> and the attempt on \<open>obj\<close>, none of \<open>post\<close>; the objects of \<open>pre\<close> are bumped in
  the store it leaves, and every other object is as before.
\<close>

theorem NotifySystemDependencies_fail_fast:
  assumes wf: "wf_store (Manager m)"
    and lists: "\<forall>gvk\<in>set systemDependencies. list_error (Manager m) gvk n = None"
    and visit: "dependents (Manager m) n systemDependencies = pre @ obj # post"
    and before: "\<forall>x\<in>set pre. update_error (Manager m) (bump x) = None"
    and failing: "update_error (Manager m) (bump obj) = Some err"
  shows "fst (NotifySystemDependencies m n)
           = Some (Wrap err (''failed to notify '' @ GetKind obj @ '' controller''))
     \<and> objects (Manager (snd (NotifySystemDependencies m n)))
           = map (\<lambda>x. if x \<in> set pre then bump x else x) (objects (Manager m))
     \<and> updated (requests (Manager (snd (NotifySystemDependencies m n))))
           = updated (requests (Manager m)) @ map bump (pre @ [obj])
     \<and> systems (snd (NotifySystemDependencies m n)) = systems m
     \<and> monitors (snd (NotifySystemDependencies m n)) = monitors m"
proof -
  note r = notifyControllersClient_rejected [OF wf systemDependencies_distinct
      systemDependencies_notifiable lists visit before failing]
  obtain e c' where run: "notifyControllersClient (Manager m) n systemDependencies = (e, c')"
    by (cases "notifyControllersClient (Manager m) n systemDependencies")
  then have res: "NotifySystemDependencies m n = (e, m\<lparr>Manager := c'\<rparr>)"
    by (simp add: NotifySystemDependencies_def notifyControllers_def GetClient_def)
  from r show ?thesis
    unfolding res run by simp
qed

theorem NotifySystemDependencies_fail_fast_witness:
  "wf_store (Manager (NewPlatformManager cluster4))
   \<and> dependents (Manager (NewPlatformManager cluster4)) ''ns1'' systemDependencies
       = [host1] @ host3 # [net1]
   \<and> update_error (Manager (NewPlatformManager cluster4)) (bump host1) = None
   \<and> update_error (Manager (NewPlatformManager cluster4)) (bump host3) = Some (ApiError ''conflict'')
   \<and> fst (NotifySystemDependencies (NewPlatformManager cluster4) ''ns1'')
       = Some (Wrap (ApiError ''conflict'') ''failed to notify Host controller'')
   \<and> objects (Manager (snd (NotifySystemDependencies (NewPlatformManager cluster4) ''ns1'')))
       = [bump host1, host3, net1]
   \<and> updated (requests (Manager (snd (NotifySystemDependencies (NewPlatformManager cluster4) ''ns1''))))
       = [bump host1, bump host3]"
proof -
  let ?m = "NewPlatformManager cluster4"
  have c: "Manager ?m = cluster4"
    by (simp add: NewPlatformManager_def)
  have objs: "objects cluster4 = [host1, host3, net1]" and reqs: "requests cluster4 = []"
    by (simp_all add: cluster4_def)
  have wf: "wf_store (Manager ?m)"
    unfolding c
    by (simp add: wf_store_def cluster4_def identity_def host1_def host3_def net1_def
        gvk_of_def KindHost_def KindPlatformNetwork_def)
  have lists: "\<forall>gvk\<in>set systemDependencies. list_error (Manager ?m) gvk ''ns1'' = None"
    unfolding c by (simp add: cluster4_def)
  have visit: "dependents (Manager ?m) ''ns1'' systemDependencies = [host1] @ host3 # [net1]"
    unfolding c
    by (simp add: dependents_def systemDependencies_def selected_def InNamespace_def cluster4_def
        host1_def host3_def net1_def gvk_of_def KindHost_def KindPlatformNetwork_def
        KindDataNetwork_def KindPTPInstance_def KindPTPInterface_def)
  have before: "\<forall>x\<in>set [host1]. update_error (Manager ?m) (bump x) = None"
    unfolding c by (simp add: cluster4_def host1_def)
  have failing: "update_error (Manager ?m) (bump host3) = Some (ApiError ''conflict'')"
    unfolding c by (simp add: cluster4_def host3_def)
  note t = NotifySystemDependencies_fail_fast [OF wf lists visit before failing]
  have kind: "''failed to notify '' @ GetKind host3 @ '' controller''
      = ''failed to notify Host controller''"
    by (simp add: GetKind_def host3_def gvk_of_def KindHost_def)
  have ne: "host3 \<noteq> host1" "net1 \<noteq> host1"
    by (simp_all add: host1_def host3_def net1_def)
  have e: "fst (NotifySystemDependencies ?m ''ns1'')
       = Some (Wrap (ApiError ''conflict'') ''failed to notify Host controller'')"
    using t [THEN conjunct1] unfolding kind .
  have o: "objects (Manager (snd (NotifySystemDependencies ?m ''ns1''))) = [bump host1, host3, net1]"
    unfolding t [THEN conjunct2, THEN conjunct1] c objs using ne by simp
  have u: "updated (requests (Manager (snd (NotifySystemDependencies ?m ''ns1''))))
       = [bump host1, bump host3]"
    unfolding t [THEN conjunct2, THEN conjunct2, THEN conjunct1] c reqs by simp
  from before have b1: "update_error (Manager ?m) (bump host1) = None"
    by simp
  from wf visit b1 failing e o u show ?thesis
    by (intro conjI)
qed

section \<open>The cascade for the system controller\<close>

text \<open>
  C7: \<^verbatim>\<open>NotifySystemController\<close> is claimed to bump the counter of each system of the
  namespace as the notifier of a single object does, and never to error or crash when the
  annotation map of a system is nil.  The code assigns to \<^verbatim>\<open>obj.Annotations\<close> without
  the nil check its two siblings make: on a system without annotations it panics, after the
  list request and before any update, and so does \<^verbatim>\<open>ResetPlatformClient\<close>, which has
  cleared the client by then.
\<close>

theorem NotifySystemController_nil_map_panics:
  "Annotations system2 = None
   \<and> NotifySystemController manager2 ''ns2''
       = Panic AssignmentToEntryInNilMap
           (manager2\<lparr>Manager := cluster2\<lparr>requests := [ListRequest SystemGVK ''ns2'']\<rparr>\<rparr>)
   \<and> ResetPlatformClient manager2 ''ns2''
       = Panic AssignmentToEntryInNilMap
           (manager2\<lparr>Manager := cluster2\<lparr>requests := [ListRequest SystemGVK ''ns2'']\<rparr>,
              systems := [''ns2'' \<mapsto> \<lparr>client = None, ready = True, systemType = ''standard''\<rparr>]\<rparr>)"
proof -
  have l: "client_List cluster2 SystemGVK ''ns2''
      = (Inr [system2], cluster2\<lparr>requests := [ListRequest SystemGVK ''ns2'']\<rparr>)"
    by (simp add: client_List_def cluster2_def system2_def selected_def InNamespace_def
        SystemGVK_def gvk_of_def Let_def)
  have n: "Annotations system2 = None"
    by (simp add: system2_def)
  have a: "NotifySystemController m ''ns2''
       = Panic AssignmentToEntryInNilMap
           (m\<lparr>Manager := cluster2\<lparr>requests := [ListRequest SystemGVK ''ns2'']\<rparr>\<rparr>)"
    if "Manager m = cluster2" for m
    using that by (simp add: NotifySystemController_def GetClient_def l n with_client_def Let_def)
  have m: "Manager manager2 = cluster2"
    "systems manager2 ''ns2'' = Some \<lparr>client = Some 5, ready = True, systemType = ''standard''\<rparr>"
    by (simp_all add: manager2_def)
  have b: "ResetPlatformClient manager2 ''ns2''
       = Panic AssignmentToEntryInNilMap
           (manager2\<lparr>Manager := cluster2\<lparr>requests := [ListRequest SystemGVK ''ns2'']\<rparr>,
              systems := [''ns2'' \<mapsto> \<lparr>client = None, ready = True, systemType = ''standard''\<rparr>]\<rparr>)"
    by (simp add: ResetPlatformClient_def m a) (simp add: manager2_def)
  from n a [OF m(1)] b show ?thesis
    by (intro conjI)
qed

text \<open>The notifier of a single object handles the same object: it makes the map first.\<close>

lemma NotifyResource_nil_map:
  "fst (NotifyResource manager2 (WithMeta system2)) = None
   \<and> map (\<lambda>x. nilable_index (Annotations x) NotificationCountKey)
        (objects (Manager (snd (NotifyResource manager2 (WithMeta system2))))) = [''1'']"
proof -
  have g: "getNextCount [] = ''1''"
    by code_simp
  show ?thesis
    by (simp add: NotifyResource_def notifyController_def notifyControllerClient_def
        ObjectKeyFromObject_def get_into_def client_Get_def GetClient_def manager2_def
        cluster2_def system2_def identity_def accessor_Annotations_def
        accessor_SetAnnotations_def client_Update_def replace_def bumpAnnotations_def
        map_index_def nilable_index_def g Let_def)
qed

end
